theory Spec2Isabelle
  imports Main "HOL-Library.Word"
begin

unbundle bit_operations_syntax

section \<open>Go library functions used by the launcher\<close>

text \<open>
  The program is one Go file (package main). It shells out to mount(8) and
  umount(8), calls a few functions of package os and syscall, and formats its
  messages with fmt and github.com/pkg/errors. This section gives the pure
  library functions it relies on; the effectful ones follow in the next section.
\<close>

subsection \<open>Package strings\<close>

text \<open>The position of the first separator: the text before it and the text after it.\<close>

fun cut :: "char \<Rightarrow> string \<Rightarrow> (string \<times> string) option" where
  "cut c [] = None"
| "cut c (x # xs) =
     (if x = c then Some ([], xs)
      else (case cut c xs of None \<Rightarrow> None | Some (a, b) \<Rightarrow> Some (x # a, b)))"

text \<open>
  \<^verbatim>\<open>strings.SplitN(s, sep, n)\<close> for a one-byte separator and \<open>n \<ge> 0\<close>: at most
  \<open>n\<close> pieces, the last one holding the unsplit remainder; no pieces for \<open>n = 0\<close>.
\<close>

fun strings_SplitN :: "string \<Rightarrow> char \<Rightarrow> nat \<Rightarrow> string list" where
  "strings_SplitN s c 0 = []"
| "strings_SplitN s c (Suc 0) = [s]"
| "strings_SplitN s c (Suc (Suc n)) =
     (case cut c s of
        None \<Rightarrow> [s]
      | Some (a, b) \<Rightarrow> a # strings_SplitN b c (Suc n))"

text \<open>
  \<^verbatim>\<open>strings.Split(s, sep)\<close> for a one-byte separator: every separator splits,
  and a string without one (the empty string too) gives the single piece \<open>[s]\<close>.
\<close>

fun strings_Split :: "string \<Rightarrow> char \<Rightarrow> string list" where
  "strings_Split [] c = [[]]"
| "strings_Split (x # xs) c =
     (if x = c then [] # strings_Split xs c
      else (case strings_Split xs c of
              [] \<Rightarrow> [[x]]
            | p # ps \<Rightarrow> (x # p) # ps))"

text \<open>\<^verbatim>\<open>strings.Join(elems, sep)\<close>.\<close>

fun strings_Join :: "string list \<Rightarrow> string \<Rightarrow> string" where
  "strings_Join [] sep = []"
| "strings_Join [x] sep = x"
| "strings_Join (x # y # ys) sep = x @ sep @ strings_Join (y # ys) sep"

subsection \<open>Package path/filepath (Unix)\<close>

text \<open>
  \<^verbatim>\<open>filepath.Clean\<close> works on the elements between slashes: empty elements and
  \<open>.\<close> vanish, \<open>..\<close> removes the element before it when there is one that is
  not itself \<open>..\<close>, is dropped at the root of a rooted path, and is kept at the
  front of a relative one. \<open>out\<close> is the cleaned path so far, last element first.
\<close>

fun clean_elems :: "bool \<Rightarrow> string list \<Rightarrow> string list \<Rightarrow> string list" where
  "clean_elems rooted out [] = rev out"
| "clean_elems rooted out (e # es) =
     (if e = [] \<or> e = ''.'' then clean_elems rooted out es
      else if e = ''..'' then
        (if out \<noteq> [] \<and> hd out \<noteq> ''..'' then clean_elems rooted (tl out) es
         else if \<not> rooted then clean_elems rooted (''..'' # out) es
         else clean_elems rooted out es)
      else clean_elems rooted (e # out) es)"

definition filepath_Clean :: "string \<Rightarrow> string" where
  "filepath_Clean path =
     (if path = [] then ''.''
      else
        let rooted = (hd path = CHR ''/'');
            body = strings_Join (clean_elems rooted [] (strings_Split path (CHR ''/''))) ''/''
        in if rooted then ''/'' @ body
           else if body = [] then ''.''
           else body)"

text \<open>
  \<^verbatim>\<open>filepath.Join(elem...)\<close>: leading empty elements are skipped, the rest is
  joined with slashes and cleaned; all elements empty gives the empty string.
\<close>

fun filepath_Join :: "string list \<Rightarrow> string" where
  "filepath_Join [] = []"
| "filepath_Join (e # es) =
     (if e \<noteq> [] then filepath_Clean (strings_Join (e # es) ''/'')
      else filepath_Join es)"

subsection \<open>Errors\<close>

text \<open>
  A Go \<^verbatim>\<open>error\<close> value. \<open>SysErr\<close> is an error handed back by the operating
  system or by a library that wraps it (os, os/exec, encoding/json): whether
  \<^verbatim>\<open>os.IsNotExist\<close> accepts it, and its text. \<open>Fundamental\<close> is what
  \<^verbatim>\<open>errors.Errorf\<close> builds, \<open>WithMessage\<close> what \<^verbatim>\<open>errors.Wrap\<close> and
  \<^verbatim>\<open>errors.Wrapf\<close> build around a cause. The Go value \<^verbatim>\<open>nil\<close> is \<open>None\<close>
  of \<open>goerror option\<close>.
\<close>

datatype goerror =
    SysErr (not_exist: bool) (err_text: string)
  | Fundamental string
  | WithMessage goerror string

fun Error :: "goerror \<Rightarrow> string" where
  "Error (SysErr b t) = t"
| "Error (Fundamental m) = m"
| "Error (WithMessage cause m) = m @ '': '' @ Error cause"

fun errors_Wrap :: "goerror option \<Rightarrow> string \<Rightarrow> goerror option" where
  "errors_Wrap None message = None"
| "errors_Wrap (Some err) message = Some (WithMessage err message)"

definition errors_Errorf :: "string \<Rightarrow> goerror option" where
  "errors_Errorf message = Some (Fundamental message)"

fun os_IsNotExist :: "goerror option \<Rightarrow> bool" where
  "os_IsNotExist (Some (SysErr b t)) = b"
| "os_IsNotExist _ = False"

subsection \<open>Message texts\<close>

text \<open>
  The program's messages are partly Chinese. They are given byte for byte in
  UTF-8, as Go strings hold them; each definition names the source line of its
  literal and glosses it.
\<close>

definition msg_load_config :: string where
  \<comment> \<open>line 85: reading config.json failed\<close>
  "msg_load_config =
     [CHR 0xE8, CHR 0xAF, CHR 0xBB, CHR 0xE5, CHR 0x8F, CHR 0x96] @
     '' config.json '' @
     [CHR 0xE6, CHR 0x97, CHR 0xB6, CHR 0xE5, CHR 0x87, CHR 0xBA, CHR 0xE9, CHR 0x94, CHR 0x99]"

definition msg_invalid_env :: string where
  \<comment> \<open>line 91: invalid environment variable (format prefix before %s)\<close>
  "msg_invalid_env =
     [CHR 0xE6, CHR 0x97, CHR 0xA0, CHR 0xE6, CHR 0x95, CHR 0x88, CHR 0xE7, CHR 0x9A, CHR 0x84, CHR 0xE7, CHR 0x8E, CHR 0xAF, CHR 0xE5, CHR 0xA2, CHR 0x83, CHR 0xE5, CHR 0x8F, CHR 0x98, CHR 0xE9, CHR 0x87, CHR 0x8F] @
     '': ''"

definition msg_setenv :: string where
  \<comment> \<open>lines 95 and 284: setting the environment variable failed\<close>
  "msg_setenv =
     [CHR 0xE8, CHR 0xAE, CHR 0xBE, CHR 0xE7, CHR 0xBD, CHR 0xAE, CHR 0xE7, CHR 0x8E, CHR 0xAF, CHR 0xE5, CHR 0xA2, CHR 0x83, CHR 0xE5, CHR 0x8F, CHR 0x98, CHR 0xE9, CHR 0x87, CHR 0x8F, CHR 0xE6, CHR 0x97, CHR 0xB6, CHR 0xE5, CHR 0x87, CHR 0xBA, CHR 0xE9, CHR 0x94, CHR 0x99]"

definition msg_mkdir_base :: string where
  \<comment> \<open>line 114: creating the base directory failed\<close>
  "msg_mkdir_base =
     [CHR 0xE5, CHR 0x88, CHR 0x9B, CHR 0xE5, CHR 0xBB, CHR 0xBA] @
     '' base '' @
     [CHR 0xE7, CHR 0x9B, CHR 0xAE, CHR 0xE5, CHR 0xBD, CHR 0x95, CHR 0xE6, CHR 0x97, CHR 0xB6, CHR 0xE5, CHR 0x87, CHR 0xBA, CHR 0xE9, CHR 0x94, CHR 0x99]"

definition msg_mount_tmpfs :: string where
  \<comment> \<open>line 118: mounting tmpfs failed\<close>
  "msg_mount_tmpfs =
     [CHR 0xE6, CHR 0x8C, CHR 0x82, CHR 0xE8, CHR 0xBD, CHR 0xBD] @
     '' tmpfs '' @
     [CHR 0xE6, CHR 0x97, CHR 0xB6, CHR 0xE5, CHR 0x87, CHR 0xBA, CHR 0xE9, CHR 0x94, CHR 0x99]"

definition msg_mkdir_pre :: string where
  \<comment> \<open>line 124: format prefix before %s (creating ...)\<close>
  "msg_mkdir_pre =
     [CHR 0xE5, CHR 0x88, CHR 0x9B, CHR 0xE5, CHR 0xBB, CHR 0xBA] @
     '' ''"

definition msg_mkdir_post :: string where
  \<comment> \<open>line 124: format suffix after %s (... directory failed)\<close>
  "msg_mkdir_post =
     '' '' @
     [CHR 0xE7, CHR 0x9B, CHR 0xAE, CHR 0xE5, CHR 0xBD, CHR 0x95, CHR 0xE6, CHR 0x97, CHR 0xB6, CHR 0xE5, CHR 0x87, CHR 0xBA, CHR 0xE9, CHR 0x94, CHR 0x99]"

definition msg_load_manifest :: string where
  \<comment> \<open>line 134: reading manifest.json failed\<close>
  "msg_load_manifest =
     [CHR 0xE8, CHR 0xAF, CHR 0xBB, CHR 0xE5, CHR 0x8F, CHR 0x96] @
     '' manifest.json '' @
     [CHR 0xE6, CHR 0x97, CHR 0xB6, CHR 0xE5, CHR 0x87, CHR 0xBA, CHR 0xE9, CHR 0x94, CHR 0x99]"

definition msg_mount_overlay :: string where
  \<comment> \<open>line 153: mounting the overlay file system failed\<close>
  "msg_mount_overlay =
     [CHR 0xE6, CHR 0x8C, CHR 0x82, CHR 0xE8, CHR 0xBD, CHR 0xBD] @
     '' overlay '' @
     [CHR 0xE6, CHR 0x96, CHR 0x87, CHR 0xE4, CHR 0xBB, CHR 0xB6, CHR 0xE7, CHR 0xB3, CHR 0xBB, CHR 0xE7, CHR 0xBB, CHR 0x9F, CHR 0xE6, CHR 0x97, CHR 0xB6, CHR 0xE5, CHR 0x87, CHR 0xBA, CHR 0xE9, CHR 0x94, CHR 0x99]"

definition msg_volume_missing :: string where
  \<comment> \<open>line 222: the volume directory does not exist\<close>
  "msg_volume_missing =
     ''volume '' @
     [CHR 0xE7, CHR 0x9B, CHR 0xAE, CHR 0xE5, CHR 0xBD, CHR 0x95, CHR 0xE4, CHR 0xB8, CHR 0x8D, CHR 0xE5, CHR 0xAD, CHR 0x98, CHR 0xE5, CHR 0x9C, CHR 0xA8]"

definition msg_mkdir_volume :: string where
  \<comment> \<open>lines 227 and 341: creating the volume directory failed\<close>
  "msg_mkdir_volume =
     [CHR 0xE5, CHR 0x88, CHR 0x9B, CHR 0xE5, CHR 0xBB, CHR 0xBA] @
     '' volume '' @
     [CHR 0xE7, CHR 0x9B, CHR 0xAE, CHR 0xE5, CHR 0xBD, CHR 0x95, CHR 0xE6, CHR 0x97, CHR 0xB6, CHR 0xE5, CHR 0x87, CHR 0xBA, CHR 0xE9, CHR 0x94, CHR 0x99]"

definition msg_chdir :: string where
  \<comment> \<open>line 241\<close>
  "msg_chdir =
     ''chdir '' @
     [CHR 0xE6, CHR 0x97, CHR 0xB6, CHR 0xE5, CHR 0x87, CHR 0xBA, CHR 0xE9, CHR 0x94, CHR 0x99]"

definition msg_pivot_root :: string where
  \<comment> \<open>line 245\<close>
  "msg_pivot_root =
     ''pivot_root '' @
     [CHR 0xE6, CHR 0x97, CHR 0xB6, CHR 0xE5, CHR 0x87, CHR 0xBA, CHR 0xE9, CHR 0x94, CHR 0x99]"

definition msg_rprivate :: string where
  \<comment> \<open>line 279\<close>
  "msg_rprivate =
     ''mountRecPrivate '' @
     [CHR 0xE6, CHR 0x97, CHR 0xB6, CHR 0xE5, CHR 0x87, CHR 0xBA, CHR 0xE9, CHR 0x94, CHR 0x99]"

definition msg_layers :: string where
  \<comment> \<open>line 291: setting up the layers failed\<close>
  "msg_layers =
     [CHR 0xE8, CHR 0xAE, CHR 0xBE, CHR 0xE7, CHR 0xBD, CHR 0xAE] @
     '' layers '' @
     [CHR 0xE6, CHR 0x97, CHR 0xB6, CHR 0xE5, CHR 0x87, CHR 0xBA, CHR 0xE9, CHR 0x94, CHR 0x99]"

definition msg_basefs :: string where
  \<comment> \<open>line 297: mounting the base file systems failed\<close>
  "msg_basefs =
     [CHR 0xE6, CHR 0x8C, CHR 0x82, CHR 0xE8, CHR 0xBD, CHR 0xBD, CHR 0xE5, CHR 0x9F, CHR 0xBA, CHR 0xE7, CHR 0xA1, CHR 0x80, CHR 0xE6, CHR 0x96, CHR 0x87, CHR 0xE4, CHR 0xBB, CHR 0xB6, CHR 0xE7, CHR 0xB3, CHR 0xBB, CHR 0xE7, CHR 0xBB, CHR 0x9F, CHR 0xE6, CHR 0x97, CHR 0xB6, CHR 0xE5, CHR 0x87, CHR 0xBA, CHR 0xE9, CHR 0x94, CHR 0x99]"

definition msg_volume :: string where
  \<comment> \<open>line 303: mounting the volume failed\<close>
  "msg_volume =
     [CHR 0xE6, CHR 0x8C, CHR 0x82, CHR 0xE8, CHR 0xBD, CHR 0xBD] @
     '' volume '' @
     [CHR 0xE6, CHR 0x97, CHR 0xB6, CHR 0xE5, CHR 0x87, CHR 0xBA, CHR 0xE9, CHR 0x94, CHR 0x99]"

definition msg_chroot :: string where
  \<comment> \<open>line 309\<close>
  "msg_chroot =
     ''chroot '' @
     [CHR 0xE6, CHR 0x97, CHR 0xB6, CHR 0xE5, CHR 0x87, CHR 0xBA, CHR 0xE9, CHR 0x94, CHR 0x99]"

definition msg_shell :: string where
  \<comment> \<open>line 319: running /bin/sh failed\<close>
  "msg_shell =
     [CHR 0xE8, CHR 0xBF, CHR 0x90, CHR 0xE8, CHR 0xA1, CHR 0x8C] @
     '' /bin/sh '' @
     [CHR 0xE6, CHR 0x97, CHR 0xB6, CHR 0xE5, CHR 0x87, CHR 0xBA, CHR 0xE9, CHR 0x94, CHR 0x99]"

definition msg_namespace :: string where
  \<comment> \<open>line 348: running inside the namespace and chroot failed\<close>
  "msg_namespace =
     [CHR 0xE5, CHR 0x9C, CHR 0xA8] @
     '' namespace '' @
     [CHR 0xE5, CHR 0x92, CHR 0x8C] @
     '' chroot '' @
     [CHR 0xE7, CHR 0x8E, CHR 0xAF, CHR 0xE5, CHR 0xA2, CHR 0x83, CHR 0xE4, CHR 0xB8, CHR 0xAD, CHR 0xE8, CHR 0xBF, CHR 0x90, CHR 0xE8, CHR 0xA1, CHR 0x8C, CHR 0xE6, CHR 0x97, CHR 0xB6, CHR 0xE5, CHR 0x87, CHR 0xBA, CHR 0xE9, CHR 0x94, CHR 0x99]"

section \<open>The process and the operating system\<close>

text \<open>
  An external command as \<^verbatim>\<open>exec.Cmd\<close> describes it: only the fields the
  program sets. A stream left unset reads from or writes to the null device;
  \<open>CaptureBuffer\<close> is the buffer \<^verbatim>\<open>CombinedOutput\<close> installs.
\<close>

datatype stream = Unset | OS_Stdin | OS_Stdout | OS_Stderr | CaptureBuffer

record Cmd =
  Path :: string
  Args :: "string list"
  Stdin :: stream
  Stdout :: stream
  Stderr :: stream
  Cloneflags :: "64 word"

definition exec_Command :: "string \<Rightarrow> string list \<Rightarrow> Cmd" where
  "exec_Command name arg =
     \<lparr>Path = name, Args = name # arg,
      Stdin = Unset, Stdout = Unset, Stderr = Unset, Cloneflags = 0\<rparr>"

text \<open>The calls that leave the process, and the log of what the process did.\<close>

datatype syscall =
    Run Cmd
  | MkdirAll string
  | Stat string
  | Chdir string
  | PivotRoot string string
  | Setenv string string
  | ReadJSON string

datatype event =
    Call syscall "goerror option"
  | Print string

text \<open>The image descriptor: \<^verbatim>\<open>Layer\<close> of the source.\<close>

record Layer =
  Digest :: string
  MediaType :: string
  Size :: "64 word"

text \<open>
  The world outside the process answers every call. Its answer may depend on
  everything the process did before, so it reads the log: \<open>sys\<close> gives the
  error of a call (\<open>None\<close> for success), \<open>captured\<close> what a command wrote to
  its captured streams, \<open>config_json\<close> and \<open>manifest_json\<close> what opening and
  decoding a descriptor file gives.
\<close>

record world =
  sys :: "event list \<Rightarrow> syscall \<Rightarrow> goerror option"
  captured :: "event list \<Rightarrow> Cmd \<Rightarrow> string"
  config_json :: "event list \<Rightarrow> string \<Rightarrow> goerror + string list"
  manifest_json :: "event list \<Rightarrow> string \<Rightarrow> goerror + Layer list"

record state =
  trace :: "event list"
  environ :: "string \<rightharpoonup> string"

definition log :: "event \<Rightarrow> state \<Rightarrow> state" where
  "log ev s = s\<lparr>trace := trace s @ [ev]\<rparr>"

definition call :: "world \<Rightarrow> syscall \<Rightarrow> state \<Rightarrow> goerror option \<times> state" where
  "call w c s = (let err = sys w (trace s) c in (err, log (Call c err) s))"

text \<open>
  \<^verbatim>\<open>fmt.Println\<close> writes its operands separated by spaces and a newline; a
  \<^verbatim>\<open>[]string\<close> operand is written in brackets, its elements separated by
  spaces. \<^verbatim>\<open>fmt.Printf("<label>: %v\n", err)\<close> writes the error's text.
\<close>

definition fmt_Println :: "string list \<Rightarrow> state \<Rightarrow> state" where
  "fmt_Println operands s = log (Print (strings_Join operands '' '' @ [CHR 0x0A])) s"

definition fmt_strings :: "string list \<Rightarrow> string" where
  "fmt_strings xs = ''['' @ strings_Join xs '' '' @ '']''"

definition fmt_Printf_err :: "string \<Rightarrow> goerror \<Rightarrow> state \<Rightarrow> state" where
  "fmt_Printf_err label err s = log (Print (label @ '': '' @ Error err @ [CHR 0x0A])) s"

text \<open>
  \<^verbatim>\<open>cmd.CombinedOutput()\<close> captures both output streams, runs the command and
  waits for it.
\<close>

definition CombinedOutput :: "world \<Rightarrow> Cmd \<Rightarrow> state \<Rightarrow> (string \<times> goerror option) \<times> state" where
  "CombinedOutput w cmd s =
     (let c = cmd\<lparr>Stdout := CaptureBuffer, Stderr := CaptureBuffer\<rparr>;
          out = captured w (trace s) c;
          (err, s') = call w (Run c) s
      in ((out, err), s'))"

text \<open>
  The step every mount of the source repeats:
  \<^verbatim>\<open>cmd := exec.Command(name, arg...); output, err := cmd.CombinedOutput();
  if err != nil { return errors.Wrapf(err, "<tool> output: %s", string(output)) }\<close>.
  The result is the wrapped error, or \<open>None\<close> when the source goes on.
\<close>

definition run_tool :: "world \<Rightarrow> string \<Rightarrow> string list \<Rightarrow> state \<Rightarrow> goerror option \<times> state" where
  "run_tool w name arg s =
     (case CombinedOutput w (exec_Command name arg) s of
        ((out, err), s') \<Rightarrow>
          (if err \<noteq> None then errors_Wrap err (name @ '' output: '' @ out) else None, s'))"

text \<open>
  \<^verbatim>\<open>os.Setenv\<close> on Unix refuses an empty key, a key holding \<open>=\<close> or a NUL
  byte, and a value holding a NUL byte; otherwise it sets the variable.
\<close>

definition os_Setenv_err :: "string \<Rightarrow> string \<Rightarrow> goerror option" where
  "os_Setenv_err key val =
     (if key = [] \<or> CHR ''='' \<in> set key \<or> CHR 0x00 \<in> set key \<or> CHR 0x00 \<in> set val
      then Some (SysErr False ''setenv: invalid argument'')
      else None)"

definition os_Setenv :: "string \<Rightarrow> string \<Rightarrow> state \<Rightarrow> goerror option \<times> state" where
  "os_Setenv key val s =
     (let err = os_Setenv_err key val;
          s' = log (Call (Setenv key val) err) s
      in (err, if err = None then s'\<lparr>environ := (environ s)(key \<mapsto> val)\<rparr> else s'))"

text \<open>A function either returns or panics; a panic unwinds through every caller.\<close>

datatype panic = IndexOutOfRange nat nat

datatype 'a outcome = Returns 'a | Panics panic

text \<open>How the process ends: \<^verbatim>\<open>main\<close> returns, calls \<^verbatim>\<open>os.Exit\<close>, or panics.\<close>

datatype process_end = Returned | Exited int | Crashed panic

fun exit_status :: "process_end \<Rightarrow> int" where
  "exit_status Returned = 0"
| "exit_status (Exited n) = n"
| "exit_status (Crashed p) = 2"

text \<open>The namespace flags of Linux's clone(2), as package syscall gives them.\<close>

definition CLONE_NEWNS :: "64 word" where "CLONE_NEWNS = 0x20000"
definition CLONE_NEWCGROUP :: "64 word" where "CLONE_NEWCGROUP = 0x2000000"
definition CLONE_NEWUTS :: "64 word" where "CLONE_NEWUTS = 0x4000000"
definition CLONE_NEWIPC :: "64 word" where "CLONE_NEWIPC = 0x8000000"
definition CLONE_NEWUSER :: "64 word" where "CLONE_NEWUSER = 0x10000000"
definition CLONE_NEWPID :: "64 word" where "CLONE_NEWPID = 0x20000000"
definition CLONE_NEWNET :: "64 word" where "CLONE_NEWNET = 0x40000000"
definition CLONE_NEWTIME :: "64 word" where "CLONE_NEWTIME = 0x80"

datatype namespace = NS_mount | NS_cgroup | NS_uts | NS_ipc | NS_user | NS_pid | NS_net | NS_time

fun clone_flag :: "namespace \<Rightarrow> 64 word" where
  "clone_flag NS_mount = CLONE_NEWNS"
| "clone_flag NS_cgroup = CLONE_NEWCGROUP"
| "clone_flag NS_uts = CLONE_NEWUTS"
| "clone_flag NS_ipc = CLONE_NEWIPC"
| "clone_flag NS_user = CLONE_NEWUSER"
| "clone_flag NS_pid = CLONE_NEWPID"
| "clone_flag NS_net = CLONE_NEWNET"
| "clone_flag NS_time = CLONE_NEWTIME"

text \<open>The namespaces a command asks for: those whose flag is set in its clone flags.\<close>

definition requested :: "Cmd \<Rightarrow> namespace \<Rightarrow> bool" where
  "requested cmd ns = (Cloneflags cmd AND clone_flag ns \<noteq> 0)"

section \<open>The program\<close>

subsection \<open>Descriptor loading\<close>

text \<open>
  \<^verbatim>\<open>loadConfig\<close> and \<^verbatim>\<open>loadManifest\<close> open a file and decode it; either
  step may fail, and both failures are returned unchanged.
\<close>

definition loadConfig :: "world \<Rightarrow> string \<Rightarrow> state \<Rightarrow> (goerror + string list) \<times> state" where
  "loadConfig w configPath s =
     (case config_json w (trace s) configPath of
        Inl err \<Rightarrow> (Inl err, log (Call (ReadJSON configPath) (Some err)) s)
      | Inr env \<Rightarrow> (Inr env, log (Call (ReadJSON configPath) None) s))"

definition loadManifest :: "world \<Rightarrow> string \<Rightarrow> state \<Rightarrow> (goerror + Layer list) \<times> state" where
  "loadManifest w manifestPath s =
     (case manifest_json w (trace s) manifestPath of
        Inl err \<Rightarrow> (Inl err, log (Call (ReadJSON manifestPath) (Some err)) s)
      | Inr layers \<Rightarrow> (Inr layers, log (Call (ReadJSON manifestPath) None) s))"

subsection \<open>Mount propagation and environment\<close>

definition mountRecPrivate :: "world \<Rightarrow> state \<Rightarrow> goerror option \<times> state" where
  "mountRecPrivate w s0 =
     (let s = fmt_Println [''mounting recursive private: mount --make-rprivate /''] s0
      in run_tool w ''mount'' [''--make-rprivate'', ''/''] s)"

text \<open>The body of the \<^verbatim>\<open>for _, e := range envVars\<close> loop of \<^verbatim>\<open>setEnv\<close>.\<close>

fun setEnv_loop :: "string list \<Rightarrow> state \<Rightarrow> goerror option \<times> state" where
  "setEnv_loop [] s = (None, s)"
| "setEnv_loop (e # es) s =
     (let parts = strings_SplitN e (CHR ''='') 2
      in if length parts \<noteq> 2 then (errors_Errorf (msg_invalid_env @ e), s)
         else (case os_Setenv (parts ! 0) (parts ! 1) s of
                 (Some err, s') \<Rightarrow> (errors_Wrap (Some err) msg_setenv, s')
               | (None, s') \<Rightarrow> setEnv_loop es s'))"

definition setEnv :: "world \<Rightarrow> string \<Rightarrow> state \<Rightarrow> goerror option \<times> state" where
  "setEnv w configPath s0 =
     (case loadConfig w configPath s0 of
        (Inl err, s) \<Rightarrow> (errors_Wrap (Some err) msg_load_config, s)
      | (Inr envVars, s) \<Rightarrow>
          setEnv_loop envVars (fmt_Println [''setting env vars:'', fmt_strings envVars] s))"

subsection \<open>Overlay assembly\<close>

definition mountTmpfs :: "world \<Rightarrow> string \<Rightarrow> state \<Rightarrow> goerror option \<times> state" where
  "mountTmpfs w targetDir s0 =
     (let s = fmt_Println [''mounting tmpfs filesystem: mount -t tmpfs tmpfs'', targetDir] s0
      in run_tool w ''mount'' [''-t'', ''tmpfs'', ''tmpfs'', targetDir] s)"

text \<open>The body of the \<^verbatim>\<open>for _, dir := range dirs\<close> loop of \<^verbatim>\<open>prepareDirs\<close>.\<close>

fun prepareDirs_loop :: "world \<Rightarrow> string list \<Rightarrow> state \<Rightarrow> goerror option \<times> state" where
  "prepareDirs_loop w [] s = (None, s)"
| "prepareDirs_loop w (dir # dirs) s =
     (case call w (MkdirAll dir) s of
        (Some err, s') \<Rightarrow> (errors_Wrap (Some err) (msg_mkdir_pre @ dir @ msg_mkdir_post), s')
      | (None, s') \<Rightarrow> prepareDirs_loop w dirs s')"

definition prepareDirs :: "world \<Rightarrow> string \<Rightarrow> string list \<Rightarrow> state \<Rightarrow> goerror option \<times> state" where
  "prepareDirs w baseDir dirs s0 =
     (case call w (MkdirAll baseDir) s0 of
        (Some err, s) \<Rightarrow> (errors_Wrap (Some err) msg_mkdir_base, s)
      | (None, s) \<Rightarrow>
          (case mountTmpfs w baseDir s of
             (Some err, s) \<Rightarrow> (errors_Wrap (Some err) msg_mount_tmpfs, s)
           | (None, s) \<Rightarrow>
               prepareDirs_loop w dirs
                 (fmt_Println [''making dirs: mkdir -pv'', fmt_strings dirs] s)))"

definition mountOverlayFS ::
    "world \<Rightarrow> string list \<Rightarrow> string \<Rightarrow> string \<Rightarrow> string \<Rightarrow> state \<Rightarrow> goerror option \<times> state" where
  "mountOverlayFS w lowerDirs upperDir workDir targetDir s0 =
     (let lowerdir = strings_Join lowerDirs '':'';
          options = ''lowerdir='' @ lowerdir @ '',upperdir='' @ upperDir @ '',workdir='' @ workDir;
          s = fmt_Println [''mounting overlay filesystem: mount -t overlay overlay -o'',
                           options, targetDir] s0
      in run_tool w ''mount'' [''-t'', ''overlay'', ''overlay'', ''-o'', options, targetDir] s)"

definition layer_cache_root :: string where
  "layer_cache_root = ''/tmp/proxy_pool/layers''"

text \<open>
  The loop \<^verbatim>\<open>for i := len(layers) - 1; i >= 0; i--\<close> of \<^verbatim>\<open>setLayers\<close>. The
  counter of the model is one more than the source's \<open>i\<close>, so that it counts down
  to zero on natural numbers: \<open>Suc i\<close> is the iteration that reads
  \<open>layers[i]\<close>. Indexing the split digest at 1 panics when the split has one
  piece only.
\<close>

fun lowerDirs_loop :: "Layer list \<Rightarrow> nat \<Rightarrow> string list \<Rightarrow> panic + string list" where
  "lowerDirs_loop layers 0 lowerDirs = Inr lowerDirs"
| "lowerDirs_loop layers (Suc i) lowerDirs =
     (let layer = layers ! i;
          parts = strings_Split (Digest layer) (CHR '':'')
      in if length parts \<le> 1 then Inl (IndexOutOfRange 1 (length parts))
         else
           let layerPath = filepath_Join [layer_cache_root, parts ! 1]
           in lowerDirs_loop layers i (lowerDirs @ [layerPath]))"

text \<open>
  \<^verbatim>\<open>setLayers\<close>. The call of \<^verbatim>\<open>prepareDirs\<close> on line 140 is a statement: its
  result is not assigned, and only the state it leaves is carried on.
\<close>

definition setLayers ::
    "world \<Rightarrow> string \<Rightarrow> string \<Rightarrow> string \<Rightarrow> state \<Rightarrow> goerror option outcome \<times> state" where
  "setLayers w manifestPath baseDir targetDir s0 =
     (case loadManifest w manifestPath s0 of
        (Inl err, s) \<Rightarrow> (Returns (errors_Wrap (Some err) msg_load_manifest), s)
      | (Inr layers, s) \<Rightarrow>
          let upperDir = filepath_Join [baseDir, ''upper''];
              workDir = filepath_Join [baseDir, ''work''];
              s = snd (prepareDirs w baseDir [upperDir, workDir, targetDir] s)
          in (case lowerDirs_loop layers (length layers) [] of
                Inl p \<Rightarrow> (Panics p, s)
              | Inr lowerDirs \<Rightarrow>
                  (case mountOverlayFS w lowerDirs upperDir workDir targetDir s of
                     (Some err, s) \<Rightarrow> (Returns (errors_Wrap (Some err) msg_mount_overlay), s)
                   | (None, s) \<Rightarrow> (Returns None, s))))"

subsection \<open>Pseudo file systems, volume, root switch\<close>

definition mountBaseFs :: "world \<Rightarrow> string \<Rightarrow> state \<Rightarrow> goerror option \<times> state" where
  "mountBaseFs w targetDir s0 =
     (let s = fmt_Println [''mounting proc filesystem: mount -t proc none'',
                           filepath_Join [targetDir, ''proc'']] s0
      in case run_tool w ''mount'' [''-t'', ''proc'', ''none'', filepath_Join [targetDir, ''proc'']] s of
        (Some err, s) \<Rightarrow> (Some err, s)
      | (None, s) \<Rightarrow>
     (let s = fmt_Println [''mounting sys filesystem: mount -t sysfs none'',
                           filepath_Join [targetDir, ''sys'']] s
      in case run_tool w ''mount'' [''-t'', ''sysfs'', ''none'', filepath_Join [targetDir, ''sys'']] s of
        (Some err, s) \<Rightarrow> (Some err, s)
      | (None, s) \<Rightarrow>
     (let s = fmt_Println [''mounting dev filesystem: mount -t devtmpfs devtmpfs'',
                           filepath_Join [targetDir, ''dev'']] s
      in case run_tool w ''mount'' [''-t'', ''devtmpfs'', ''devtmpfs'', filepath_Join [targetDir, ''dev'']] s of
        (Some err, s) \<Rightarrow> (Some err, s)
      | (None, s) \<Rightarrow>
     (let s = fmt_Println [''mounting devpts filesystem: mount -t devpts devpts'',
                           filepath_Join [targetDir, ''dev/pts'']] s
      in case run_tool w ''mount'' [''-t'', ''devpts'', ''devpts'', filepath_Join [targetDir, ''dev/pts'']] s of
        (Some err, s) \<Rightarrow> (Some err, s)
      | (None, s) \<Rightarrow>
     (let s = fmt_Println [''mounting shm filesystem: mount -t tmpfs shm'',
                           filepath_Join [targetDir, ''dev/shm'']] s
      in case run_tool w ''mount'' [''-t'', ''tmpfs'', ''shm'', filepath_Join [targetDir, ''dev/shm'']] s of
        (Some err, s) \<Rightarrow> (Some err, s)
      | (None, s) \<Rightarrow>
     (let s = fmt_Println [''mounting run filesystem: mount -t tmpfs tmpfs'',
                           filepath_Join [targetDir, ''run'']] s
      in case run_tool w ''mount'' [''-t'', ''tmpfs'', ''tmpfs'', filepath_Join [targetDir, ''run'']] s of
        (Some err, s) \<Rightarrow> (Some err, s)
      | (None, s) \<Rightarrow>
     (let s = fmt_Println [''mounting tmp filesystem: mount -t tmpfs tmpfs'',
                           filepath_Join [targetDir, ''tmp'']] s
      in run_tool w ''mount'' [''-t'', ''tmpfs'', ''tmpfs'', filepath_Join [targetDir, ''tmp'']] s)))))))"

definition mountVolume :: "world \<Rightarrow> string \<Rightarrow> string \<Rightarrow> state \<Rightarrow> goerror option \<times> state" where
  "mountVolume w volumeDir targetDir s0 =
     (case call w (Stat volumeDir) s0 of
        (err, s) \<Rightarrow>
          if os_IsNotExist err then (errors_Wrap err msg_volume_missing, s)
          else
            let targetVolumeDir = filepath_Join [targetDir, ''volume'']
            in (case call w (MkdirAll targetVolumeDir) s of
                  (Some err, s) \<Rightarrow> (errors_Wrap (Some err) msg_mkdir_volume, s)
                | (None, s) \<Rightarrow>
                    run_tool w ''mount'' [''--bind'', volumeDir, targetVolumeDir]
                      (fmt_Println [''mounting volume filesystem: mount --bind'',
                                    volumeDir, targetVolumeDir] s)))"

definition chroot :: "world \<Rightarrow> string \<Rightarrow> state \<Rightarrow> goerror option \<times> state" where
  "chroot w targetDir s0 =
     (case call w (Chdir targetDir) (fmt_Println [''change current dir :'', ''cd'', targetDir] s0) of
        (Some err, s) \<Rightarrow> (errors_Wrap (Some err) msg_chdir, s)
      | (None, s) \<Rightarrow>
          (case call w (PivotRoot ''.'' ''.'') (fmt_Println [''change rootfs: pivot_root . .''] s) of
             (Some err, s) \<Rightarrow> (errors_Wrap (Some err) msg_pivot_root, s)
           | (None, s) \<Rightarrow>
               run_tool w ''umount'' [''-l'', ''.'']
                 (fmt_Println [''unmounting old root: umount -l .''] s)))"

subsection \<open>Parent and child\<close>

definition child_command :: "string \<Rightarrow> string \<Rightarrow> string \<Rightarrow> string \<Rightarrow> Cmd" where
  "child_command configPath manifestPath baseDir volumeDir =
     (exec_Command ''/proc/self/exe''
        ([''child''] @ [configPath, manifestPath, baseDir, volumeDir]))
     \<lparr>Stdin := OS_Stdin, Stdout := OS_Stdout, Stderr := OS_Stderr,
      Cloneflags := CLONE_NEWUTS OR CLONE_NEWIPC OR CLONE_NEWNET OR CLONE_NEWNS OR CLONE_NEWPID\<rparr>"

definition runInNamespace ::
    "world \<Rightarrow> string \<Rightarrow> string \<Rightarrow> string \<Rightarrow> string \<Rightarrow> state \<Rightarrow> goerror option \<times> state" where
  "runInNamespace w configPath manifestPath baseDir volumeDir s =
     call w (Run (child_command configPath manifestPath baseDir volumeDir)) s"

definition shell_command :: Cmd where
  "shell_command =
     (exec_Command ''/bin/sh'' [])\<lparr>Stdin := OS_Stdin, Stdout := OS_Stdout, Stderr := OS_Stderr\<rparr>"

definition childProcess ::
    "world \<Rightarrow> string \<Rightarrow> string \<Rightarrow> string \<Rightarrow> string \<Rightarrow> state \<Rightarrow> unit outcome \<times> state" where
  "childProcess w configPath manifestPath baseDir volumeDir s0 =
     (case mountRecPrivate w s0 of
        (Some err, s) \<Rightarrow> (Returns (), fmt_Printf_err msg_rprivate err s)
      | (None, s) \<Rightarrow>
     (case setEnv w configPath s of
        (Some err, s) \<Rightarrow> (Returns (), fmt_Printf_err msg_setenv err s)
      | (None, s) \<Rightarrow>
     (let targetDir = filepath_Join [baseDir, ''merged'']
      in case setLayers w manifestPath baseDir targetDir s of
        (Panics p, s) \<Rightarrow> (Panics p, s)
      | (Returns (Some err), s) \<Rightarrow> (Returns (), fmt_Printf_err msg_layers err s)
      | (Returns None, s) \<Rightarrow>
     (case mountBaseFs w targetDir s of
        (Some err, s) \<Rightarrow> (Returns (), fmt_Printf_err msg_basefs err s)
      | (None, s) \<Rightarrow>
     (case mountVolume w volumeDir targetDir s of
        (Some err, s) \<Rightarrow> (Returns (), fmt_Printf_err msg_volume err s)
      | (None, s) \<Rightarrow>
     (case chroot w targetDir s of
        (Some err, s) \<Rightarrow> (Returns (), fmt_Printf_err msg_chroot err s)
      | (None, s) \<Rightarrow>
     (case call w (Run shell_command) s of
        (Some err, s) \<Rightarrow> (Returns (), fmt_Printf_err msg_shell err s)
      | (None, s) \<Rightarrow> (Returns (), s))))))))"

text \<open>\<^verbatim>\<open>main\<close>; \<open>os_Args\<close> is \<^verbatim>\<open>os.Args\<close>, the program's name first.\<close>

definition main :: "world \<Rightarrow> string list \<Rightarrow> state \<Rightarrow> process_end \<times> state" where
  "main w os_Args s0 =
     (if length os_Args > 1 \<and> os_Args ! 1 = ''child'' then
        if length os_Args \<noteq> 6
        then (Exited 1, fmt_Println [''Invalid number of arguments for child process''] s0)
        else (case childProcess w (os_Args ! 2) (os_Args ! 3) (os_Args ! 4) (os_Args ! 5) s0 of
                (Returns u, s) \<Rightarrow> (Returned, s)
              | (Panics p, s) \<Rightarrow> (Crashed p, s))
      else
        let configPath = ''/tmp/proxy_pool/config.json'';
            manifestPath = ''/tmp/proxy_pool/manifest.json'';
            baseDir = ''/tmp/proxy_pool/overlay'';
            volumeDir = ''/tmp/proxy_pool/volume''
        in (case call w (MkdirAll volumeDir) s0 of
              (Some err, s) \<Rightarrow> (Returned, fmt_Printf_err msg_mkdir_volume err s)
            | (None, s) \<Rightarrow>
                (case runInNamespace w configPath manifestPath baseDir volumeDir s of
                   (Some err, s) \<Rightarrow> (Returned, fmt_Printf_err msg_namespace err s)
                 | (None, s) \<Rightarrow> (Returned, s))))"

section \<open>Observing a run\<close>

text \<open>What a computation added to the log, between the state before and the state after.\<close>

definition new_events :: "state \<Rightarrow> state \<Rightarrow> event list" where
  "new_events s s' = drop (length (trace s)) (trace s')"

fun failed :: "event \<Rightarrow> bool" where
  "failed (Call c (Some err)) = True"
| "failed ev = False"

fun is_call :: "event \<Rightarrow> bool" where
  "is_call (Call c r) = True"
| "is_call (Print l) = False"

text \<open>A command as \<open>run_tool\<close> runs it, with both output streams captured.\<close>

definition tool :: "string \<Rightarrow> string list \<Rightarrow> Cmd" where
  "tool name arg = (exec_Command name arg)\<lparr>Stdout := CaptureBuffer, Stderr := CaptureBuffer\<rparr>"

text \<open>
  The mount operations of a log: every invocation of the mount and umount
  tools with its argument vector, and every pivot-root call.
\<close>

datatype mount_op = Tool "string list" | Pivot string string

fun mount_op_of :: "event \<Rightarrow> mount_op option" where
  "mount_op_of (Call (Run c) r) =
     (if Path c = ''mount'' \<or> Path c = ''umount'' then Some (Tool (Args c)) else None)"
| "mount_op_of (Call (PivotRoot new_root put_old) r) = Some (Pivot new_root put_old)"
| "mount_op_of ev = None"

definition mount_ops :: "event list \<Rightarrow> mount_op list" where
  "mount_ops evs = List.map_filter mount_op_of evs"

fun is_overlay_mount :: "mount_op \<Rightarrow> bool" where
  "is_overlay_mount (Tool arg) = (take 3 arg = [''mount'', ''-t'', ''overlay''])"
| "is_overlay_mount (Pivot a b) = False"

fun launches_shell :: "event \<Rightarrow> bool" where
  "launches_shell (Call (Run c) r) = (Path c = ''/bin/sh'')"
| "launches_shell ev = False"

text \<open>The \<^verbatim>\<open>os.Setenv\<close> calls of a log, in order: key and value of each.\<close>

fun setenv_of :: "event \<Rightarrow> (string \<times> string) option" where
  "setenv_of (Call (Setenv k v) r) = Some (k, v)"
| "setenv_of ev = None"

definition setenv_calls :: "event list \<Rightarrow> (string \<times> string) list" where
  "setenv_calls evs = List.map_filter setenv_of evs"

subsection \<open>The stages of the child\<close>

text \<open>
  \<^verbatim>\<open>childProcess\<close> runs six stages and then the shell. To speak of one stage
  failing after the earlier ones succeeded, the stages are named, and
  \<open>run_stages\<close> runs a list of them from a state, giving the state reached
  when each of them returned \<^verbatim>\<open>nil\<close>.
\<close>

datatype stage = RPrivate | Env | Layers | BaseFs | Volume | Chroot

record child_args =
  configPath :: string
  manifestPath :: string
  baseDir :: string
  volumeDir :: string

definition merged :: "child_args \<Rightarrow> string" where
  "merged a = filepath_Join [baseDir a, ''merged'']"

fun run_stage :: "world \<Rightarrow> child_args \<Rightarrow> stage \<Rightarrow> state \<Rightarrow> goerror option outcome \<times> state" where
  "run_stage w a RPrivate s = (case mountRecPrivate w s of (r, s') \<Rightarrow> (Returns r, s'))"
| "run_stage w a Env s = (case setEnv w (configPath a) s of (r, s') \<Rightarrow> (Returns r, s'))"
| "run_stage w a Layers s = setLayers w (manifestPath a) (baseDir a) (merged a) s"
| "run_stage w a BaseFs s = (case mountBaseFs w (merged a) s of (r, s') \<Rightarrow> (Returns r, s'))"
| "run_stage w a Volume s = (case mountVolume w (volumeDir a) (merged a) s of (r, s') \<Rightarrow> (Returns r, s'))"
| "run_stage w a Chroot s = (case chroot w (merged a) s of (r, s') \<Rightarrow> (Returns r, s'))"

fun run_stages :: "world \<Rightarrow> child_args \<Rightarrow> stage list \<Rightarrow> state \<Rightarrow> state option" where
  "run_stages w a [] s = Some s"
| "run_stages w a (st # sts) s =
     (case run_stage w a st s of
        (Returns None, s') \<Rightarrow> run_stages w a sts s'
      | (Returns (Some err), s') \<Rightarrow> None
      | (Panics p, s') \<Rightarrow> None)"

definition all_stages :: "stage list" where
  "all_stages = [RPrivate, Env, Layers, BaseFs, Volume, Chroot]"

fun earlier :: "stage \<Rightarrow> stage list" where
  "earlier RPrivate = []"
| "earlier Env = [RPrivate]"
| "earlier Layers = [RPrivate, Env]"
| "earlier BaseFs = [RPrivate, Env, Layers]"
| "earlier Volume = [RPrivate, Env, Layers, BaseFs]"
| "earlier Chroot = [RPrivate, Env, Layers, BaseFs, Volume]"

text \<open>The label \<^verbatim>\<open>childProcess\<close> prints before the error of a failed stage.\<close>

fun stage_label :: "stage \<Rightarrow> string" where
  "stage_label RPrivate = msg_rprivate"
| "stage_label Env = msg_setenv"
| "stage_label Layers = msg_layers"
| "stage_label BaseFs = msg_basefs"
| "stage_label Volume = msg_volume"
| "stage_label Chroot = msg_chroot"

subsection \<open>The directory of a layer\<close>

text \<open>
  The hex portion of a digest \<open>algorithm:hex\<close> is the piece after the first
  colon, up to the next colon should there be one; the directory of a layer is
  the layer cache root joined with it.
\<close>

definition digest_hex :: "string \<Rightarrow> string" where
  "digest_hex d = (case cut (CHR '':'') d of None \<Rightarrow> [] | Some (alg, rest) \<Rightarrow> hd (strings_Split rest (CHR '':'')))"

definition layer_path :: "Layer \<Rightarrow> string" where
  "layer_path l = filepath_Join [layer_cache_root, digest_hex (Digest l)]"

subsection \<open>Environment entries\<close>




subsection \<open>Growth of the log\<close>

text \<open>From one state to a later one the log only grows, and what was added does not launch the shell.\<close>

definition quiet :: "state \<Rightarrow> state \<Rightarrow> bool" where
  "quiet s s' \<longleftrightarrow> (\<exists>evs. trace s' = trace s @ evs \<and> (\<forall>ev\<in>set evs. \<not> launches_shell ev))"

subsection \<open>Sample worlds\<close>

text \<open>
  A world in which every call succeeds and the descriptors hold two
  environment entries and two layers, and the state of a fresh process.
\<close>

definition w_quiet :: world where
  "w_quiet = \<lparr>sys = (\<lambda>t c. None), captured = (\<lambda>t c. []),
              config_json = (\<lambda>t p. Inr [''PATH=/bin'', ''OPTS=a=b'']),
              manifest_json = (\<lambda>t p. Inr [\<lparr>Digest = ''sha256:aa'', MediaType = ''tar'', Size = 1\<rparr>,
                                            \<lparr>Digest = ''sha256:bb'', MediaType = ''tar'', Size = 2\<rparr>])\<rparr>"

definition s_init :: state where
  "s_init = \<lparr>trace = [], environ = Map.empty\<rparr>"

text \<open>A world without the host directory \<open>/vol\<close>: looking it up fails, everything else succeeds.\<close>

definition w_no_volume :: world where
  "w_no_volume = w_quiet\<lparr>sys := (\<lambda>t c. if c = Stat ''/vol''
      then Some (SysErr True ''stat /vol: no such file or directory'') else None)\<rparr>"

text \<open>
  A world in which \<open>/f\<close> is a regular file, so that there is no \<open>/f/x\<close>:
  looking \<open>/f/x\<close> up fails with ENOTDIR, an error that \<^verbatim>\<open>os.IsNotExist\<close>
  does not accept. Everything else succeeds.
\<close>

definition w_not_dir :: world where
  "w_not_dir = w_quiet\<lparr>sys := (\<lambda>t c. if c = Stat ''/f/x''
      then Some (SysErr False ''stat /f/x: not a directory'') else None)\<rparr>"

text \<open>A world whose manifest names a layer by a digest without a colon.\<close>

definition w_bad_digest :: world where
  "w_bad_digest = w_quiet\<lparr>manifest_json := (\<lambda>t p.
      Inr [\<lparr>Digest = ''sha256:aa'', MediaType = ''tar'', Size = 1\<rparr>,
           \<lparr>Digest = ''bb'', MediaType = ''tar'', Size = 2\<rparr>])\<rparr>"


text \<open>
  A world in which mounting the tmpfs on \<open>/base\<close> fails with exit status 32,
  the status of mount(8) for a failed mount, and everything else succeeds.
\<close>

definition w_tmpfs_fails :: world where
  "w_tmpfs_fails = w_quiet\<lparr>sys := (\<lambda>t c.
      if c = Run (tool ''mount'' [''-t'', ''tmpfs'', ''tmpfs'', ''/base''])
      then Some (SysErr False ''exit status 32'') else None)\<rparr>"

text \<open>The arguments of a child started on \<open>/c\<close>, \<open>/m\<close>, \<open>/base\<close> and \<open>/vol\<close>.\<close>

definition a_sample :: child_args where
  "a_sample = \<lparr>configPath = ''/c'', manifestPath = ''/m'', baseDir = ''/base'', volumeDir = ''/vol''\<rparr>"

section \<open>Facts about the library functions\<close>

lemma cut_None_iff: "cut c s = None \<longleftrightarrow> c \<notin> set s"
  by (induction s) (auto split: option.splits)

lemma cut_Some_append: "cut c s = Some (a, b) \<Longrightarrow> s = a @ c # b \<and> c \<notin> set a"
  by (induction s arbitrary: a) (auto split: if_splits option.splits)

lemma strings_Split_not_Nil: "strings_Split s c \<noteq> []"
  by (induction s) (auto split: list.splits)

lemma strings_Split_cut:
  "strings_Split s c = (case cut c s of None \<Rightarrow> [s] | Some (a, b) \<Rightarrow> a # strings_Split b c)"
  by (induction s) (auto split: option.splits list.splits)

lemma strings_Split_no_sep:
  assumes "c \<notin> set s"
  shows "strings_Split s c = [s]"
proof -
  from assms have "cut c s = None" by (simp add: cut_None_iff)
  then show ?thesis by (subst strings_Split_cut) simp
qed

lemma strings_Split_sep:
  assumes "c \<in> set s"
  obtains a b where "cut c s = Some (a, b)" and "strings_Split s c = a # strings_Split b c"
proof -
  from assms obtain a b where ab: "cut c s = Some (a, b)"
    using cut_None_iff [of c s] by (cases "cut c s") auto
  then have "strings_Split s c = a # strings_Split b c"
    by (subst strings_Split_cut) simp
  with ab show ?thesis by (rule that)
qed

lemma strings_Split_length_le_1: "length (strings_Split s c) \<le> Suc 0 \<longleftrightarrow> c \<notin> set s"
proof (cases "c \<in> set s")
  case True
  then obtain a b where "strings_Split s c = a # strings_Split b c"
    by (rule strings_Split_sep)
  moreover have "length (strings_Split b c) > 0" using strings_Split_not_Nil [of b c] by simp
  ultimately show ?thesis using True by simp
next
  case False
  then show ?thesis by (simp add: strings_Split_no_sep)
qed

lemma strings_Split_nth_1:
  assumes "CHR '':'' \<in> set s"
  shows "strings_Split s (CHR '':'') ! 1 = digest_hex s"
proof -
  from assms obtain a b where ab: "cut (CHR '':'') s = Some (a, b)"
    and sp: "strings_Split s (CHR '':'') = a # strings_Split b (CHR '':'')"
    by (rule strings_Split_sep)
  show ?thesis
    using ab sp strings_Split_not_Nil [of b "CHR '':''"]
    by (cases "strings_Split b (CHR '':'')") (simp_all add: digest_hex_def)
qed

lemma strings_SplitN_2:
  "strings_SplitN e c 2 = (case cut c e of None \<Rightarrow> [e] | Some (a, b) \<Rightarrow> [a, b])"
  by (simp add: numeral_2_eq_2 split: option.splits)

lemma lowerDirs_loop_ok:
  "i \<le> length layers \<Longrightarrow> \<forall>j<i. CHR '':'' \<in> set (Digest (layers ! j)) \<Longrightarrow>
   lowerDirs_loop layers i acc = Inr (acc @ rev (map layer_path (take i layers)))"
proof (induction i arbitrary: acc)
  case 0
  then show ?case by simp
next
  case (Suc i)
  have colon: "CHR '':'' \<in> set (Digest (layers ! i))" using Suc.prems by simp
  then have len: "\<not> length (strings_Split (Digest (layers ! i)) (CHR '':'')) \<le> Suc 0"
    by (simp add: strings_Split_length_le_1)
  have hex: "strings_Split (Digest (layers ! i)) (CHR '':'') ! 1 = digest_hex (Digest (layers ! i))"
    using colon by (rule strings_Split_nth_1)
  have "take (Suc i) layers = take i layers @ [layers ! i]"
    using Suc.prems by (simp add: take_Suc_conv_app_nth)
  moreover have "lowerDirs_loop layers i (acc @ [layer_path (layers ! i)]) =
      Inr ((acc @ [layer_path (layers ! i)]) @ rev (map layer_path (take i layers)))"
    using Suc.prems by (intro Suc.IH) auto
  ultimately show ?case using len hex by (simp add: Let_def layer_path_def)
qed

lemma lowerDirs_loop_panic:
  "\<exists>j<i. CHR '':'' \<notin> set (Digest (layers ! j)) \<Longrightarrow>
   lowerDirs_loop layers i acc = Inl (IndexOutOfRange 1 1)"
proof (induction i arbitrary: acc)
  case 0
  then show ?case by simp
next
  case (Suc i)
  show ?case
  proof (cases "CHR '':'' \<in> set (Digest (layers ! i))")
    case True
    then have len: "\<not> length (strings_Split (Digest (layers ! i)) (CHR '':'')) \<le> Suc 0"
      by (simp add: strings_Split_length_le_1)
    from True Suc.prems have "\<exists>j<i. CHR '':'' \<notin> set (Digest (layers ! j))"
      using less_Suc_eq by auto
    then show ?thesis using len Suc.IH by (simp add: Let_def)
  next
    case False
    then show ?thesis by (simp add: Let_def strings_Split_no_sep)
  qed
qed

section \<open>Facts about the process operations\<close>

lemma trace_log [simp]: "trace (log ev s) = trace s @ [ev]"
  by (simp add: log_def)

lemma environ_log [simp]: "environ (log ev s) = environ s"
  by (simp add: log_def)

lemma call_eq: "call w c s = (sys w (trace s) c, log (Call c (sys w (trace s) c)) s)"
  by (simp add: call_def Let_def)

lemma run_tool_eq:
  "run_tool w name arg s =
     (errors_Wrap (sys w (trace s) (Run (tool name arg)))
        (name @ '' output: '' @ captured w (trace s) (tool name arg)),
      log (Call (Run (tool name arg)) (sys w (trace s) (Run (tool name arg)))) s)"
  by (cases "sys w (trace s) (Run (tool name arg))")
     (simp_all add: run_tool_def CombinedOutput_def call_def Let_def tool_def)

lemma errors_Wrap_None_iff [simp]: "errors_Wrap err m = None \<longleftrightarrow> err = None"
  by (cases err) simp_all

lemma mount_ops_Nil [simp]: "mount_ops [] = []"
  by (simp add: mount_ops_def map_filter_simps)

lemma mount_ops_Cons [simp]:
  "mount_ops (ev # evs) = (case mount_op_of ev of None \<Rightarrow> mount_ops evs | Some m \<Rightarrow> m # mount_ops evs)"
  by (simp add: mount_ops_def map_filter_simps split: option.splits)

lemma mount_ops_append [simp]: "mount_ops (xs @ ys) = mount_ops xs @ mount_ops ys"
  by (induction xs) (simp_all split: option.splits)

lemma Path_tool [simp]: "Path (tool name arg) = name"
  by (simp add: tool_def exec_Command_def)

lemma Args_tool [simp]: "Args (tool name arg) = name # arg"
  by (simp add: tool_def exec_Command_def)

lemma quiet_refl [simp]: "quiet s s"
  by (simp add: quiet_def)

lemma quiet_trans: "quiet s s1 \<Longrightarrow> quiet s1 s2 \<Longrightarrow> quiet s s2"
  by (auto simp: quiet_def)

lemma quiet_log: "\<not> launches_shell ev \<Longrightarrow> quiet s (log ev s)"
  by (simp add: quiet_def)

lemma quiet_trace: "quiet s s' \<Longrightarrow> trace s' = trace s @ new_events s s'"
  by (auto simp: quiet_def new_events_def)

lemma quiet_new_events: "quiet s s' \<Longrightarrow> ev \<in> set (new_events s s') \<Longrightarrow> \<not> launches_shell ev"
  by (auto simp: quiet_def new_events_def)

lemma new_events_trans:
  "quiet s s1 \<Longrightarrow> quiet s1 s2 \<Longrightarrow> new_events s s2 = new_events s s1 @ new_events s1 s2"
  by (auto simp: quiet_def new_events_def)

lemma new_events_log [simp]: "new_events s (log ev s) = [ev]"
  by (simp add: new_events_def)

lemma new_events_self [simp]: "new_events s s = []"
  by (simp add: new_events_def)

lemma quiet_Println: "quiet s (fmt_Println ops s)"
  by (simp add: fmt_Println_def quiet_log)

lemma quiet_Printf: "quiet s (fmt_Printf_err l e s)"
  by (simp add: fmt_Printf_err_def quiet_log)

lemma quiet_call: "(\<And>r. \<not> launches_shell (Call c r)) \<Longrightarrow> quiet s (snd (call w c s))"
  by (simp add: call_eq quiet_log)

lemma quiet_run_tool: "name \<noteq> ''/bin/sh'' \<Longrightarrow> quiet s (snd (run_tool w name arg s))"
  by (simp add: run_tool_eq quiet_log)

subsection \<open>No stage launches the shell\<close>

lemma mountRecPrivate_quiet: "quiet s (snd (mountRecPrivate w s))"
  unfolding mountRecPrivate_def Let_def
  by (rule quiet_trans [OF quiet_Println quiet_run_tool]) simp

lemma os_Setenv_quiet: "quiet s (snd (os_Setenv k v s))"
  by (simp add: os_Setenv_def Let_def quiet_def)

lemma setEnv_loop_quiet: "quiet s (snd (setEnv_loop es s))"
proof (induction es arbitrary: s)
  case Nil
  then show ?case by simp
next
  case (Cons e es)
  show ?case
  proof (cases "length (strings_SplitN e (CHR ''='') 2) \<noteq> 2")
    case True
    then show ?thesis by (simp add: Let_def)
  next
    case False
    let ?p = "strings_SplitN e (CHR ''='') 2"
    obtain r s1 where o: "os_Setenv (?p ! 0) (?p ! 1) s = (r, s1)" by force
    then have q: "quiet s s1" using os_Setenv_quiet [of s "?p ! 0" "?p ! 1"] by simp
    show ?thesis
    proof (cases r)
      case None
      with False o q Cons.IH [of s1] show ?thesis
        by (auto simp: Let_def intro: quiet_trans)
    next
      case (Some err)
      with False o q show ?thesis by (simp add: Let_def)
    qed
  qed
qed

lemma loadConfig_quiet: "quiet s (snd (loadConfig w p s))"
  by (simp add: loadConfig_def quiet_log split: sum.splits)

lemma loadManifest_quiet: "quiet s (snd (loadManifest w p s))"
  by (simp add: loadManifest_def quiet_log split: sum.splits)

lemma setEnv_quiet: "quiet s (snd (setEnv w p s))"
proof -
  obtain r s1 where l: "loadConfig w p s = (r, s1)" by force
  then have q: "quiet s s1" using loadConfig_quiet [of s w p] by simp
  show ?thesis
  proof (cases r)
    case (Inl err)
    with l q show ?thesis by (simp add: setEnv_def)
  next
    case (Inr env)
    with l show ?thesis
      using quiet_trans [OF q quiet_trans [OF quiet_Println setEnv_loop_quiet]]
      by (simp add: setEnv_def)
  qed
qed


lemma mountTmpfs_quiet: "quiet s (snd (mountTmpfs w t s))"
  unfolding mountTmpfs_def Let_def
  by (rule quiet_trans [OF quiet_Println quiet_run_tool]) simp

lemma prepareDirs_loop_quiet: "quiet s (snd (prepareDirs_loop w ds s))"
proof (induction ds arbitrary: s)
  case Nil
  then show ?case by simp
next
  case (Cons d ds)
  show ?case
  proof (cases "sys w (trace s) (MkdirAll d)")
    case None
    have "quiet s (log (Call (MkdirAll d) None) s)" by (simp add: quiet_log)
    from quiet_trans [OF this Cons.IH] show ?thesis using None by (simp add: call_eq)
  next
    case (Some err)
    then show ?thesis by (simp add: call_eq quiet_log)
  qed
qed

lemma prepareDirs_quiet: "quiet s (snd (prepareDirs w b ds s))"
proof (cases "sys w (trace s) (MkdirAll b)")
  case (Some err)
  then show ?thesis by (simp add: prepareDirs_def call_eq quiet_log)
next
  case None
  let ?s1 = "log (Call (MkdirAll b) None) s"
  have q1: "quiet s ?s1" by (simp add: quiet_log)
  obtain r s2 where m: "mountTmpfs w b ?s1 = (r, s2)" by force
  have q2: "quiet s s2"
    using quiet_trans [OF q1 mountTmpfs_quiet [of ?s1 w b]] m by simp
  show ?thesis
  proof (cases r)
    case (Some err)
    with None m q2 show ?thesis by (simp add: prepareDirs_def call_eq)
  next
    case None': None
    have "quiet s (snd (prepareDirs_loop w ds (fmt_Println ops s2)))" for ops
      by (rule quiet_trans [OF q2 quiet_trans [OF quiet_Println prepareDirs_loop_quiet]])
    with None None' m show ?thesis by (simp add: prepareDirs_def call_eq)
  qed
qed

lemma mountOverlayFS_quiet: "quiet s (snd (mountOverlayFS w l u k t s))"
  unfolding mountOverlayFS_def Let_def
  by (rule quiet_trans [OF quiet_Println quiet_run_tool]) simp

lemma setLayers_quiet: "quiet s (snd (setLayers w m b t s))"
proof -
  obtain r s1 where l: "loadManifest w m s = (r, s1)" by force
  have q1: "quiet s s1" using loadManifest_quiet [of s w m] l by simp
  show ?thesis
  proof (cases r)
    case (Inl err)
    with l q1 show ?thesis by (simp add: setLayers_def)
  next
    case (Inr layers)
    let ?u = "filepath_Join [b, ''upper'']"
    let ?k = "filepath_Join [b, ''work'']"
    let ?s2 = "snd (prepareDirs w b [?u, ?k, t] s1)"
    have q2: "quiet s ?s2" by (rule quiet_trans [OF q1 prepareDirs_quiet])
    show ?thesis
    proof (cases "lowerDirs_loop layers (length layers) []")
      case (Inl p)
      with l Inr q2 show ?thesis by (simp add: setLayers_def Let_def del: filepath_Join.simps)
    next
      case lower: (Inr lowerDirs)
      obtain r3 s3 where o: "mountOverlayFS w lowerDirs ?u ?k t ?s2 = (r3, s3)" by force
      have "quiet s s3"
        using quiet_trans [OF q2 mountOverlayFS_quiet [of ?s2 w lowerDirs ?u ?k t]] o by simp
      with l Inr lower o show ?thesis
        by (cases r3) (simp_all add: setLayers_def Let_def del: filepath_Join.simps)
    qed
  qed
qed

lemma quiet_tool_step:
  assumes "quiet s s1" and "name \<noteq> ''/bin/sh''"
  shows "quiet s (snd (run_tool w name arg (fmt_Println ops s1)))"
  by (rule quiet_trans [OF assms(1) quiet_trans [OF quiet_Println quiet_run_tool [OF assms(2)]]])

lemma quiet_tool_then:
  assumes "quiet s s1" and "name \<noteq> ''/bin/sh''"
    and "\<And>s2. quiet s s2 \<Longrightarrow> quiet s (snd (k s2))"
  shows "quiet s (snd (case run_tool w name arg (fmt_Println ops s1) of
                         (Some err, s') \<Rightarrow> (Some err, s')
                       | (None, s') \<Rightarrow> k s'))"
proof -
  obtain r s2 where o: "run_tool w name arg (fmt_Println ops s1) = (r, s2)" by force
  have q: "quiet s s2" using quiet_tool_step [OF assms(1,2), of w arg ops] o by simp
  show ?thesis using o q assms(3) [OF q] by (cases r) simp_all
qed

lemma mountBaseFs_quiet: "quiet s (snd (mountBaseFs w t s))"
  unfolding mountBaseFs_def Let_def
  by (intro quiet_tool_then quiet_tool_step quiet_refl) simp_all


lemma mountVolume_quiet: "quiet s (snd (mountVolume w v t s))"
proof -
  let ?e = "sys w (trace s) (Stat v)"
  let ?s1 = "log (Call (Stat v) ?e) s"
  have q1: "quiet s ?s1" by (simp add: quiet_log)
  show ?thesis
  proof (cases "os_IsNotExist ?e")
    case True
    with q1 show ?thesis by (simp add: mountVolume_def call_eq)
  next
    case False
    let ?d = "filepath_Join [t, ''volume'']"
    let ?s2 = "log (Call (MkdirAll ?d) (sys w (trace ?s1) (MkdirAll ?d))) ?s1"
    have q2: "quiet s ?s2" by (rule quiet_trans [OF q1 quiet_log]) simp
    have q3: "quiet s (snd (run_tool w ''mount'' arg (fmt_Println ops ?s2)))" for arg ops
      by (rule quiet_tool_step [OF q2]) simp
    show ?thesis
      using False q2 q3
      by (cases "sys w (trace ?s1) (MkdirAll ?d)")
         (simp_all add: mountVolume_def call_eq Let_def del: filepath_Join.simps)
  qed
qed

lemma chroot_quiet: "quiet s (snd (chroot w t s))"
proof -
  let ?s0 = "fmt_Println [''change current dir :'', ''cd'', t] s"
  let ?s1 = "log (Call (Chdir t) (sys w (trace ?s0) (Chdir t))) ?s0"
  have q1: "quiet s ?s1"
    by (rule quiet_trans [OF quiet_Println quiet_log]) simp
  show ?thesis
  proof (cases "sys w (trace ?s0) (Chdir t)")
    case (Some err)
    with q1 show ?thesis by (simp add: chroot_def call_eq)
  next
    case None
    let ?s2 = "fmt_Println [''change rootfs: pivot_root . .''] ?s1"
    let ?s3 = "log (Call (PivotRoot ''.'' ''.'') (sys w (trace ?s2) (PivotRoot ''.'' ''.''))) ?s2"
    have q3: "quiet s ?s3"
      by (rule quiet_trans [OF q1 quiet_trans [OF quiet_Println quiet_log]]) simp
    have q4: "quiet s (snd (run_tool w ''umount'' arg (fmt_Println ops ?s3)))" for arg ops
      by (rule quiet_tool_step [OF q3]) simp
    show ?thesis
      using None q3 q4
      by (cases "sys w (trace ?s2) (PivotRoot ''.'' ''.'')")
         (simp_all add: chroot_def call_eq)
  qed
qed

lemma run_stage_quiet: "quiet s (snd (run_stage w a st s))"
proof (cases st)
  case RPrivate
  then show ?thesis using mountRecPrivate_quiet [of s w] by (auto split: prod.splits)
next
  case Env
  then show ?thesis using setEnv_quiet [of s w "configPath a"] by (auto split: prod.splits)
next
  case Layers
  then show ?thesis by (simp add: setLayers_quiet)
next
  case BaseFs
  then show ?thesis using mountBaseFs_quiet [of s w "merged a"] by (auto split: prod.splits)
next
  case Volume
  then show ?thesis using mountVolume_quiet [of s w "volumeDir a" "merged a"] by (auto split: prod.splits)
next
  case Chroot
  then show ?thesis using chroot_quiet [of s w "merged a"] by (auto split: prod.splits)
qed

lemma run_stages_quiet: "run_stages w a sts s = Some s' \<Longrightarrow> quiet s s'"
proof (induction sts arbitrary: s)
  case Nil
  then show ?case by simp
next
  case (Cons st sts)
  obtain r s1 where o: "run_stage w a st s = (r, s1)" by force
  have q: "quiet s s1" using run_stage_quiet [of s w a st] o by simp
  from Cons.prems o have "r = Returns None" and "run_stages w a sts s1 = Some s'"
    by (auto split: outcome.splits option.splits)
  from quiet_trans [OF q Cons.IH [OF this(2)]] show ?case .
qed

text \<open>The child as its stages: what \<open>childProcess\<close> does after a prefix of them succeeded.\<close>

lemma run_stages_append:
  "run_stages w a (xs @ ys) s =
     (case run_stages w a xs s of None \<Rightarrow> None | Some s' \<Rightarrow> run_stages w a ys s')"
  by (induction xs arbitrary: s) (auto split: prod.splits outcome.splits option.splits)

subsection \<open>What the overlay assembler adds to the log\<close>

lemma new_events_step:
  "quiet s s1 \<Longrightarrow> quiet s1 (snd (f s1)) \<Longrightarrow>
   new_events s (snd (f s1)) = new_events s s1 @ new_events s1 (snd (f s1))"
  by (rule new_events_trans)

lemma new_events_Println [simp]:
  "new_events s (fmt_Println ops s) = [Print (strings_Join ops '' '' @ [CHR 0x0A])]"
  by (simp add: fmt_Println_def)

lemma new_events_run_tool:
  "new_events s (snd (run_tool w name arg s)) =
     [Call (Run (tool name arg)) (sys w (trace s) (Run (tool name arg)))]"
  by (simp add: run_tool_eq)

lemma loadManifest_ok:
  "manifest_json w (trace s) m = Inr layers \<Longrightarrow>
   loadManifest w m s = (Inr layers, log (Call (ReadJSON m) None) s)"
  by (simp add: loadManifest_def)

lemma mountTmpfs_events:
  "\<exists>p e. new_events s (snd (mountTmpfs w t s)) =
     [Print p, Call (Run (tool ''mount'' [''-t'', ''tmpfs'', ''tmpfs'', t])) e]
   \<and> fst (mountTmpfs w t s) = errors_Wrap e (''mount output: '' @ captured w (trace s @ [Print p]) (tool ''mount'' [''-t'', ''tmpfs'', ''tmpfs'', t]))"
  by (simp add: mountTmpfs_def run_tool_eq fmt_Println_def new_events_def Let_def)

lemma prepareDirs_loop_mount_ops:
  "mount_ops (new_events s (snd (prepareDirs_loop w ds s))) = []"
proof (induction ds arbitrary: s)
  case Nil
  then show ?case by simp
next
  case (Cons d ds)
  show ?case
  proof (cases "sys w (trace s) (MkdirAll d)")
    case None
    let ?s1 = "log (Call (MkdirAll d) None) s"
    have "new_events s (snd (prepareDirs_loop w ds ?s1)) =
        new_events s ?s1 @ new_events ?s1 (snd (prepareDirs_loop w ds ?s1))"
      by (rule new_events_trans [OF quiet_log prepareDirs_loop_quiet]) simp
    then show ?thesis using None Cons.IH [of ?s1] by (simp add: call_eq)
  next
    case (Some err)
    then show ?thesis by (simp add: call_eq)
  qed
qed

lemma prepareDirs_loop_failed:
  "fst (prepareDirs_loop w ds s) \<noteq> None \<Longrightarrow>
   \<exists>ev\<in>set (new_events s (snd (prepareDirs_loop w ds s))). failed ev"
proof (induction ds arbitrary: s)
  case Nil
  then show ?case by simp
next
  case (Cons d ds)
  show ?case
  proof (cases "sys w (trace s) (MkdirAll d)")
    case None
    let ?s1 = "log (Call (MkdirAll d) None) s"
    have "new_events s (snd (prepareDirs_loop w ds ?s1)) =
        new_events s ?s1 @ new_events ?s1 (snd (prepareDirs_loop w ds ?s1))"
      by (rule new_events_trans [OF quiet_log prepareDirs_loop_quiet]) simp
    then show ?thesis using None Cons.IH [of ?s1] Cons.prems by (simp add: call_eq)
  next
    case (Some err)
    then show ?thesis by (simp add: call_eq)
  qed
qed


lemma prepareDirs_mkdir_base_failed:
  "sys w (trace s) (MkdirAll b) = Some err \<Longrightarrow>
   prepareDirs w b ds s = (Some (WithMessage err msg_mkdir_base), log (Call (MkdirAll b) (Some err)) s)"
  by (simp add: prepareDirs_def call_eq)

lemma prepareDirs_mount_ops:
  "mount_ops (new_events s (snd (prepareDirs w b ds s))) =
     (if sys w (trace s) (MkdirAll b) = None
      then [Tool [''mount'', ''-t'', ''tmpfs'', ''tmpfs'', b]] else [])"
proof (cases "sys w (trace s) (MkdirAll b)")
  case (Some err)
  then show ?thesis by (simp add: prepareDirs_mkdir_base_failed)
next
  case None
  let ?s1 = "log (Call (MkdirAll b) None) s"
  obtain r s2 where m: "mountTmpfs w b ?s1 = (r, s2)" by force
  have q1: "quiet s ?s1" by (simp add: quiet_log)
  have q12: "quiet ?s1 s2" using mountTmpfs_quiet [of ?s1 w b] m by simp
  have q2: "quiet s s2" by (rule quiet_trans [OF q1 q12])
  from mountTmpfs_events [of ?s1 w b] m
  obtain p e where ev: "new_events ?s1 s2 = [Print p, Call (Run (tool ''mount'' [''-t'', ''tmpfs'', ''tmpfs'', b])) e]"
    by auto
  have n2: "new_events s s2 = Call (MkdirAll b) None # new_events ?s1 s2"
    using new_events_trans [OF q1 q12] by simp
  show ?thesis
  proof (cases r)
    case (Some err)
    with None m have "snd (prepareDirs w b ds s) = s2" by (simp add: prepareDirs_def call_eq)
    then show ?thesis using None n2 ev by simp
  next
    case None': None
    let ?s3 = "fmt_Println [''making dirs: mkdir -pv'', fmt_strings ds] s2"
    let ?s4 = "snd (prepareDirs_loop w ds ?s3)"
    have eq: "snd (prepareDirs w b ds s) = ?s4"
      using None None' m by (simp add: prepareDirs_def call_eq)
    have q3: "quiet s ?s3" by (rule quiet_trans [OF q2 quiet_Println])
    have "new_events s ?s4 = new_events s ?s3 @ new_events ?s3 ?s4"
      by (rule new_events_trans [OF q3 prepareDirs_loop_quiet])
    moreover have "new_events s ?s3 = new_events s s2 @ new_events s2 ?s3"
      by (rule new_events_trans [OF q2 quiet_Println])
    ultimately show ?thesis
      using None n2 ev prepareDirs_loop_mount_ops [of ?s3 w ds] by (simp add: eq)
  qed
qed

lemma prepareDirs_first_event:
  "\<exists>evs. new_events s (snd (prepareDirs w b ds s)) =
     Call (MkdirAll b) (sys w (trace s) (MkdirAll b)) # evs"
proof -
  let ?s1 = "log (Call (MkdirAll b) (sys w (trace s) (MkdirAll b))) s"
  have "\<exists>s2. quiet ?s1 s2 \<and> snd (prepareDirs w b ds s) = s2"
  proof (cases "sys w (trace s) (MkdirAll b)")
    case (Some err)
    then show ?thesis by (simp add: prepareDirs_mkdir_base_failed)
  next
    case None
    obtain r s2 where m: "mountTmpfs w b ?s1 = (r, s2)" by force
    have q12: "quiet ?s1 s2" using mountTmpfs_quiet [of ?s1 w b] m by simp
    show ?thesis
    proof (cases r)
      case (Some err)
      with None m q12 show ?thesis by (simp add: prepareDirs_def call_eq)
    next
      case None': None
      have "quiet ?s1 (snd (prepareDirs_loop w ds (fmt_Println ops s2)))" for ops
        by (rule quiet_trans [OF q12 quiet_trans [OF quiet_Println prepareDirs_loop_quiet]])
      with None None' m show ?thesis by (simp add: prepareDirs_def call_eq)
    qed
  qed
  then obtain s2 where q: "quiet ?s1 s2" and eq: "snd (prepareDirs w b ds s) = s2" by blast
  have "new_events s s2 = new_events s ?s1 @ new_events ?s1 s2"
    by (rule new_events_trans [OF quiet_log q]) simp
  then show ?thesis by (simp add: eq)
qed

lemma lowerDirs_loop_all:
  assumes "\<forall>l\<in>set layers. CHR '':'' \<in> set (Digest l)"
  shows "lowerDirs_loop layers (length layers) [] = Inr (rev (map layer_path layers))"
  using lowerDirs_loop_ok [of "length layers" layers "[]"] assms by simp

lemma setLayers_events:
  assumes "manifest_json w (trace s) m = Inr layers"
    and "\<forall>l\<in>set layers. CHR '':'' \<in> set (Digest l)"
  shows "\<exists>p e. new_events s (snd (setLayers w m b t s)) =
           Call (ReadJSON m) None
           # new_events (log (Call (ReadJSON m) None) s)
               (snd (prepareDirs w b [filepath_Join [b, ''upper''], filepath_Join [b, ''work''], t]
                       (log (Call (ReadJSON m) None) s)))
           @ [Print p,
              Call (Run (tool ''mount'' [''-t'', ''overlay'', ''overlay'', ''-o'',
                    ''lowerdir='' @ strings_Join (rev (map layer_path layers)) '':''
                      @ '',upperdir='' @ filepath_Join [b, ''upper'']
                      @ '',workdir='' @ filepath_Join [b, ''work''], t])) e]
         \<and> (\<exists>r. fst (setLayers w m b t s) = Returns r \<and> (r = None \<longleftrightarrow> e = None))"
proof -
  let ?u = "filepath_Join [b, ''upper'']"
  let ?k = "filepath_Join [b, ''work'']"
  let ?s1 = "log (Call (ReadJSON m) None) s"
  let ?s2 = "snd (prepareDirs w b [?u, ?k, t] ?s1)"
  let ?l = "rev (map layer_path layers)"
  let ?s3 = "snd (mountOverlayFS w ?l ?u ?k t ?s2)"
  have q1: "quiet s ?s1" by (simp add: quiet_log)
  have q12: "quiet ?s1 ?s2" by (rule prepareDirs_quiet)
  have q2: "quiet s ?s2" by (rule quiet_trans [OF q1 q12])
  have q23: "quiet ?s2 ?s3" by (rule mountOverlayFS_quiet)
  have n2: "new_events s ?s2 = Call (ReadJSON m) None # new_events ?s1 ?s2"
    using new_events_trans [OF q1 q12] by simp
  have n3: "new_events s ?s3 = new_events s ?s2 @ new_events ?s2 ?s3"
    by (rule new_events_trans [OF q2 q23])
  have ov: "\<exists>p e. new_events ?s2 ?s3 =
      [Print p, Call (Run (tool ''mount'' [''-t'', ''overlay'', ''overlay'', ''-o'',
                    ''lowerdir='' @ strings_Join ?l '':'' @ '',upperdir='' @ ?u @ '',workdir='' @ ?k, t])) e]
      \<and> (fst (mountOverlayFS w ?l ?u ?k t ?s2) = None \<longleftrightarrow> e = None)"
    by (simp add: mountOverlayFS_def run_tool_eq fmt_Println_def new_events_def Let_def
        del: filepath_Join.simps)
  have eq: "setLayers w m b t s =
      (case mountOverlayFS w ?l ?u ?k t ?s2 of
         (Some err, s') \<Rightarrow> (Returns (errors_Wrap (Some err) msg_mount_overlay), s')
       | (None, s') \<Rightarrow> (Returns None, s'))"
    using loadManifest_ok [OF assms(1)] lowerDirs_loop_all [OF assms(2)]
    by (simp add: setLayers_def Let_def del: filepath_Join.simps)
  have sn: "snd (setLayers w m b t s) = ?s3"
    by (simp add: eq split: prod.splits option.splits)
  have fs: "\<exists>r. fst (setLayers w m b t s) = Returns r \<and>
      (r = None \<longleftrightarrow> fst (mountOverlayFS w ?l ?u ?k t ?s2) = None)"
    by (simp add: eq split: prod.splits option.splits)
  define c where "c = tool ''mount'' [''-t'', ''overlay'', ''overlay'', ''-o'',
                    ''lowerdir='' @ strings_Join ?l '':'' @ '',upperdir='' @ ?u @ '',workdir='' @ ?k, t]"
  define n12 where "n12 = new_events ?s1 ?s2"
  define n23 where "n23 = new_events ?s2 ?s3"
  define n where "n = new_events s (snd (setLayers w m b t s))"
  define res where "res = fst (setLayers w m b t s)"
  define ov_res where "ov_res = fst (mountOverlayFS w ?l ?u ?k t ?s2)"
  have ov': "\<exists>p e. n23 = [Print p, Call (Run c) e] \<and> (ov_res = None \<longleftrightarrow> e = None)"
    using ov unfolding c_def n23_def ov_res_def .
  have fs': "\<exists>r. res = Returns r \<and> (r = None \<longleftrightarrow> ov_res = None)"
    using fs unfolding res_def ov_res_def .
  have n': "n = Call (ReadJSON m) None # n12 @ n23"
    unfolding n_def n12_def n23_def by (simp only: sn n3 n2 append_Cons)
  have "\<exists>p e. n = Call (ReadJSON m) None # n12 @ [Print p, Call (Run c) e]
      \<and> (\<exists>r. res = Returns r \<and> (r = None \<longleftrightarrow> e = None))"
    using ov' fs' n' by auto
  then show ?thesis
    unfolding n_def n12_def res_def c_def .
qed

subsection \<open>The environment loop\<close>

lemma setenv_calls_Nil [simp]: "setenv_calls [] = []"
  by (simp add: setenv_calls_def map_filter_simps)

lemma setenv_calls_Cons [simp]:
  "setenv_calls (ev # evs) = (case setenv_of ev of None \<Rightarrow> setenv_calls evs | Some kv \<Rightarrow> kv # setenv_calls evs)"
  by (simp add: setenv_calls_def map_filter_simps split: option.splits)

lemma setenv_calls_append [simp]: "setenv_calls (xs @ ys) = setenv_calls xs @ setenv_calls ys"
  by (induction xs) (simp_all split: option.splits)





subsection \<open>The mount operations of a stage that returned without error\<close>

lemma setEnv_loop_mount_ops: "mount_ops (new_events s (snd (setEnv_loop es s))) = []"
proof (induction es arbitrary: s)
  case Nil
  then show ?case by simp
next
  case (Cons e es)
  show ?case
  proof (cases "length (strings_SplitN e (CHR ''='') 2) \<noteq> 2")
    case True
    then show ?thesis by (simp add: Let_def)
  next
    case False
    let ?p = "strings_SplitN e (CHR ''='') 2"
    obtain r s1 where o: "os_Setenv (?p ! 0) (?p ! 1) s = (r, s1)" by force
    have q: "quiet s s1" using os_Setenv_quiet [of s "?p ! 0" "?p ! 1"] o by simp
    have n1: "mount_ops (new_events s s1) = []"
      using o by (auto simp: os_Setenv_def Let_def new_events_def split: if_splits)
    show ?thesis
    proof (cases r)
      case None
      have "new_events s (snd (setEnv_loop es s1)) = new_events s s1 @ new_events s1 (snd (setEnv_loop es s1))"
        by (rule new_events_trans [OF q setEnv_loop_quiet])
      with False o None n1 Cons.IH [of s1] show ?thesis by (simp add: Let_def)
    next
      case (Some err)
      with False o n1 show ?thesis by (simp add: Let_def)
    qed
  qed
qed

lemma setEnv_mount_ops: "mount_ops (new_events s (snd (setEnv w cfg s))) = []"
proof (cases "config_json w (trace s) cfg")
  case (Inl err)
  then show ?thesis by (simp add: setEnv_def loadConfig_def)
next
  case (Inr env)
  let ?s1 = "log (Call (ReadJSON cfg) None) s"
  let ?s2 = "fmt_Println [''setting env vars:'', fmt_strings env] ?s1"
  have q: "quiet s ?s2" by (rule quiet_trans [OF quiet_log quiet_Println]) simp
  have "new_events s (snd (setEnv_loop env ?s2)) =
      new_events s ?s2 @ new_events ?s2 (snd (setEnv_loop env ?s2))"
    by (rule new_events_trans [OF q setEnv_loop_quiet])
  moreover have "new_events s ?s2 = [Call (ReadJSON cfg) None, Print (strings_Join [''setting env vars:'', fmt_strings env] '' '' @ [CHR 0x0A])]"
    by (simp add: new_events_def fmt_Println_def del: strings_Join.simps)
  ultimately show ?thesis
    using Inr setEnv_loop_mount_ops [of ?s2 env]
    by (simp add: setEnv_def loadConfig_def del: strings_Join.simps)
qed

lemma mountRecPrivate_ok:
  "mountRecPrivate w s = (None, s') \<Longrightarrow>
   mount_ops (new_events s s') = [Tool [''mount'', ''--make-rprivate'', ''/'']]"
  by (auto simp: mountRecPrivate_def run_tool_eq fmt_Println_def new_events_def Let_def)

lemma mountBaseFs_ok:
  "mountBaseFs w t s = (None, s') \<Longrightarrow>
   mount_ops (new_events s s') =
     [Tool [''mount'', ''-t'', ''proc'', ''none'', filepath_Join [t, ''proc'']],
      Tool [''mount'', ''-t'', ''sysfs'', ''none'', filepath_Join [t, ''sys'']],
      Tool [''mount'', ''-t'', ''devtmpfs'', ''devtmpfs'', filepath_Join [t, ''dev'']],
      Tool [''mount'', ''-t'', ''devpts'', ''devpts'', filepath_Join [t, ''dev/pts'']],
      Tool [''mount'', ''-t'', ''tmpfs'', ''shm'', filepath_Join [t, ''dev/shm'']],
      Tool [''mount'', ''-t'', ''tmpfs'', ''tmpfs'', filepath_Join [t, ''run'']],
      Tool [''mount'', ''-t'', ''tmpfs'', ''tmpfs'', filepath_Join [t, ''tmp'']]]"
  by (auto simp: mountBaseFs_def run_tool_eq fmt_Println_def new_events_def Let_def
      simp del: filepath_Join.simps strings_Join.simps split: option.splits)

lemma mountVolume_ok:
  "mountVolume w v t s = (None, s') \<Longrightarrow>
   mount_ops (new_events s s') = [Tool [''mount'', ''--bind'', v, filepath_Join [t, ''volume'']]]"
  by (auto simp: mountVolume_def call_eq run_tool_eq fmt_Println_def new_events_def Let_def
      simp del: filepath_Join.simps strings_Join.simps split: option.splits if_splits)

lemma chroot_ok:
  "chroot w t s = (None, s') \<Longrightarrow>
   mount_ops (new_events s s') = [Pivot ''.'' ''.'', Tool [''umount'', ''-l'', ''.'']]"
  by (auto simp: chroot_def call_eq run_tool_eq fmt_Println_def new_events_def Let_def
      simp del: strings_Join.simps split: option.splits)

lemma setLayers_ok_manifest:
  assumes "setLayers w m b t s = (Returns None, s')"
  shows "\<exists>layers. manifest_json w (trace s) m = Inr layers
       \<and> (\<forall>l\<in>set layers. CHR '':'' \<in> set (Digest l))"
proof (cases "manifest_json w (trace s) m")
  case (Inl err)
  with assms show ?thesis by (simp add: setLayers_def loadManifest_def)
next
  case (Inr layers)
  have "\<forall>l\<in>set layers. CHR '':'' \<in> set (Digest l)"
  proof (rule ccontr)
    assume "\<not> (\<forall>l\<in>set layers. CHR '':'' \<in> set (Digest l))"
    then have "\<exists>j<length layers. CHR '':'' \<notin> set (Digest (layers ! j))"
      by (auto simp: in_set_conv_nth)
    then have "lowerDirs_loop layers (length layers) [] = Inl (IndexOutOfRange 1 1)"
      by (rule lowerDirs_loop_panic)
    with assms loadManifest_ok [OF Inr] show False
      by (simp add: setLayers_def Let_def del: filepath_Join.simps)
  qed
  with Inr show ?thesis by simp
qed

lemma setLayers_ok:
  assumes "setLayers w m b t s = (Returns None, s')"
    and "\<forall>ev\<in>set (new_events s s'). \<not> failed ev"
  shows "\<exists>layers. manifest_json w (trace s) m = Inr layers \<and> mount_ops (new_events s s') =
     [Tool [''mount'', ''-t'', ''tmpfs'', ''tmpfs'', b],
      Tool [''mount'', ''-t'', ''overlay'', ''overlay'', ''-o'',
            ''lowerdir='' @ strings_Join (rev (map layer_path layers)) '':''
              @ '',upperdir='' @ filepath_Join [b, ''upper'']
              @ '',workdir='' @ filepath_Join [b, ''work''], t]]"
proof -
  from setLayers_ok_manifest [OF assms(1)] obtain layers where
    man: "manifest_json w (trace s) m = Inr layers"
    and colon: "\<forall>l\<in>set layers. CHR '':'' \<in> set (Digest l)" by blast
  let ?s1 = "log (Call (ReadJSON m) None) s"
  define n12 where "n12 = new_events ?s1
      (snd (prepareDirs w b [filepath_Join [b, ''upper''], filepath_Join [b, ''work''], t] ?s1))"
  define c where "c = tool ''mount'' [''-t'', ''overlay'', ''overlay'', ''-o'',
            ''lowerdir='' @ strings_Join (rev (map layer_path layers)) '':''
              @ '',upperdir='' @ filepath_Join [b, ''upper'']
              @ '',workdir='' @ filepath_Join [b, ''work''], t]"
  from setLayers_events [OF man colon, of b t] assms(1)
  obtain p e where n: "new_events s s' = Call (ReadJSON m) None # n12 @ [Print p, Call (Run c) e]"
    unfolding n12_def c_def by auto
  from prepareDirs_first_event [of ?s1 w b]
  obtain evs where first: "n12 = Call (MkdirAll b) (sys w (trace ?s1) (MkdirAll b)) # evs"
    unfolding n12_def by blast
  have "\<not> failed (Call (MkdirAll b) (sys w (trace ?s1) (MkdirAll b)))"
    using assms(2) unfolding n first by simp
  then have ok: "sys w (trace ?s1) (MkdirAll b) = None"
    by (cases "sys w (trace ?s1) (MkdirAll b)") simp_all
  have "mount_ops n12 = [Tool [''mount'', ''-t'', ''tmpfs'', ''tmpfs'', b]]"
    unfolding n12_def using ok by (simp add: prepareDirs_mount_ops del: filepath_Join.simps)
  then have "mount_ops (new_events s s') =
     [Tool [''mount'', ''-t'', ''tmpfs'', ''tmpfs'', b], Tool (Args c)]"
    unfolding n by (simp add: c_def)
  then have final: "manifest_json w (trace s) m = Inr layers \<and> mount_ops (new_events s s') =
     [Tool [''mount'', ''-t'', ''tmpfs'', ''tmpfs'', b],
      Tool [''mount'', ''-t'', ''overlay'', ''overlay'', ''-o'',
            ''lowerdir='' @ strings_Join (rev (map layer_path layers)) '':''
              @ '',upperdir='' @ filepath_Join [b, ''upper'']
              @ '',workdir='' @ filepath_Join [b, ''work''], t]]"
    using man unfolding c_def by simp
  show ?thesis by (rule exI, rule final)
qed

subsection \<open>The child as a sequence of stages\<close>

lemma run_stages_Cons:
  "run_stages w a (st # sts) s = Some s' \<longleftrightarrow>
     (\<exists>s1. run_stage w a st s = (Returns None, s1) \<and> run_stages w a sts s1 = Some s')"
  by (auto split: prod.splits outcome.splits option.splits)

lemma run_stage_RPrivate: "run_stage w a RPrivate s = (Returns r, s') \<longleftrightarrow> mountRecPrivate w s = (r, s')"
  by (auto split: prod.splits)

lemma run_stage_Env: "run_stage w a Env s = (Returns r, s') \<longleftrightarrow> setEnv w (configPath a) s = (r, s')"
  by (auto split: prod.splits)

lemma run_stage_BaseFs: "run_stage w a BaseFs s = (Returns r, s') \<longleftrightarrow> mountBaseFs w (merged a) s = (r, s')"
  by (auto split: prod.splits)

lemma run_stage_Volume:
  "run_stage w a Volume s = (Returns r, s') \<longleftrightarrow> mountVolume w (volumeDir a) (merged a) s = (r, s')"
  by (auto split: prod.splits)

lemma run_stage_Chroot: "run_stage w a Chroot s = (Returns r, s') \<longleftrightarrow> chroot w (merged a) s = (r, s')"
  by (auto split: prod.splits)

lemma run_stage_Layers:
  "run_stage w a Layers s = (r, s') \<longleftrightarrow> setLayers w (manifestPath a) (baseDir a) (merged a) s = (r, s')"
  by simp

lemmas run_stage_iffs = run_stage_RPrivate run_stage_Env run_stage_Layers run_stage_BaseFs
  run_stage_Volume run_stage_Chroot

lemma childProcess_stage_failed:
  assumes "run_stages w a (earlier st) s = Some s1"
    and "run_stage w a st s1 = (Returns (Some err), s2)"
  shows "childProcess w (configPath a) (manifestPath a) (baseDir a) (volumeDir a) s =
           (Returns (), fmt_Printf_err (stage_label st) err s2)"
proof (cases st)
  case RPrivate
  with assms show ?thesis
    by (simp add: childProcess_def run_stage_iffs del: run_stage.simps)
next
  case Env
  with assms show ?thesis
    by (auto simp: childProcess_def run_stages_Cons run_stage_iffs Let_def simp del: run_stage.simps run_stages.simps(2))
next
  case Layers
  with assms show ?thesis
    by (auto simp: childProcess_def run_stages_Cons run_stage_iffs merged_def Let_def
        simp del: run_stage.simps run_stages.simps(2) filepath_Join.simps)
next
  case BaseFs
  with assms show ?thesis
    by (auto simp: childProcess_def run_stages_Cons run_stage_iffs merged_def Let_def
        simp del: run_stage.simps run_stages.simps(2) filepath_Join.simps)
next
  case Volume
  with assms show ?thesis
    by (auto simp: childProcess_def run_stages_Cons run_stage_iffs merged_def Let_def
        simp del: run_stage.simps run_stages.simps(2) filepath_Join.simps)
next
  case Chroot
  with assms show ?thesis
    by (auto simp: childProcess_def run_stages_Cons run_stage_iffs merged_def Let_def
        simp del: run_stage.simps run_stages.simps(2) filepath_Join.simps)
qed

lemma childProcess_stages_ok:
  assumes "run_stages w a all_stages s = Some s6"
  shows "childProcess w (configPath a) (manifestPath a) (baseDir a) (volumeDir a) s =
           (case call w (Run shell_command) s6 of
              (Some err, s') \<Rightarrow> (Returns (), fmt_Printf_err msg_shell err s')
            | (None, s') \<Rightarrow> (Returns (), s'))"
  using assms
  by (auto simp: childProcess_def all_stages_def run_stages_Cons run_stage_iffs merged_def Let_def
      simp del: run_stage.simps run_stages.simps(2) filepath_Join.simps)

lemma shell_tail_mount_ops:
  "mount_ops (new_events s6 (snd (case call w (Run shell_command) s6 of
              (Some err, s') \<Rightarrow> (Returns (), fmt_Printf_err msg_shell err s')
            | (None, s') \<Rightarrow> (Returns (), s')))) = []"
  by (cases "sys w (trace s6) (Run shell_command)")
     (simp_all add: call_eq fmt_Printf_err_def new_events_def shell_command_def exec_Command_def)

lemma shell_tail_grows:
  "\<exists>evs. trace (snd (case call w (Run shell_command) s6 of
              (Some err, s') \<Rightarrow> (Returns (), fmt_Printf_err msg_shell err s')
            | (None, s') \<Rightarrow> (Returns (), s'))) = trace s6 @ evs"
  by (cases "sys w (trace s6) (Run shell_command)")
     (simp_all add: call_eq fmt_Printf_err_def)

lemma new_events_grow:
  "quiet s s1 \<Longrightarrow> trace s2 = trace s1 @ evs \<Longrightarrow> new_events s s2 = new_events s s1 @ new_events s1 s2"
  by (auto simp: quiet_def new_events_def)

lemma run_stages_all:
  assumes "run_stages w a all_stages s = Some s6"
  shows "\<exists>s1 s2 s3 s4 s5. mountRecPrivate w s = (None, s1) \<and>
    setEnv w (configPath a) s1 = (None, s2) \<and>
    setLayers w (manifestPath a) (baseDir a) (merged a) s2 = (Returns None, s3) \<and>
    mountBaseFs w (merged a) s3 = (None, s4) \<and>
    mountVolume w (volumeDir a) (merged a) s4 = (None, s5) \<and>
    chroot w (merged a) s5 = (None, s6)"
  using assms
  by (simp add: all_stages_def run_stages_Cons run_stage_iffs
        del: run_stage.simps run_stages.simps(2))

text \<open>The equations that evaluate a run in a sample world.\<close>

lemmas run_defs = mountRecPrivate_def run_tool_eq fmt_Println_def log_def setEnv_def loadConfig_def
  strings_SplitN_2 os_Setenv_def os_Setenv_err_def Let_def setLayers_def loadManifest_def
  prepareDirs_def mountTmpfs_def call_eq mountOverlayFS_def mountBaseFs_def mountVolume_def
  chroot_def filepath_Clean_def layer_cache_root_def merged_def

text \<open>
  A stage that returns an error ends the run: the label and the error are
  printed, and the log is the log up to the end of that stage and this line.
\<close>

lemma childProcess_reported_failure:
  assumes "run_stages w a (earlier st) s = Some s1"
    and "run_stage w a st s1 = (Returns (Some err), s2)"
  shows "childProcess w (configPath a) (manifestPath a) (baseDir a) (volumeDir a) s =
           (Returns (), fmt_Printf_err (stage_label st) err s2)
       \<and> new_events s (snd (childProcess w (configPath a) (manifestPath a) (baseDir a) (volumeDir a) s)) =
           new_events s s2 @ [Print (stage_label st @ '': '' @ Error err @ [CHR 0x0A])]
       \<and> (\<forall>ev\<in>set (new_events s
             (snd (childProcess w (configPath a) (manifestPath a) (baseDir a) (volumeDir a) s))).
             \<not> launches_shell ev)"
proof -
  have eq: "childProcess w (configPath a) (manifestPath a) (baseDir a) (volumeDir a) s =
           (Returns (), fmt_Printf_err (stage_label st) err s2)"
    by (rule childProcess_stage_failed [OF assms])
  have q1: "quiet s s1" by (rule run_stages_quiet [OF assms(1)])
  have q12: "quiet s1 s2" using run_stage_quiet [of s1 w a st] assms(2) by simp
  have q2: "quiet s s2" by (rule quiet_trans [OF q1 q12])
  have q3: "quiet s (fmt_Printf_err (stage_label st) err s2)"
    by (rule quiet_trans [OF q2 quiet_Printf])
  have n: "new_events s (fmt_Printf_err (stage_label st) err s2) =
      new_events s s2 @ [Print (stage_label st @ '': '' @ Error err @ [CHR 0x0A])]"
    using new_events_trans [OF q2 quiet_Printf, of "stage_label st" err]
    by (simp add: fmt_Printf_err_def)
  show ?thesis
    using n quiet_new_events [OF q3] by (simp add: eq)
qed

text \<open>The run in the world where the tmpfs mount fails: all six stages return \<^verbatim>\<open>nil\<close>.\<close>

lemma tmpfs_fails_stages:
  "case run_stages w_tmpfs_fails a_sample all_stages s_init of
     None \<Rightarrow> False
   | Some s6 \<Rightarrow>
       filter failed (new_events s_init s6) =
         [Call (Run (tool ''mount'' [''-t'', ''tmpfs'', ''tmpfs'', ''/base''])) (Some (SysErr False ''exit status 32''))]
       \<and> mount_ops (new_events s_init s6) =
     [Tool [''mount'', ''--make-rprivate'', ''/''],
      Tool [''mount'', ''-t'', ''tmpfs'', ''tmpfs'', ''/base''],
      Tool [''mount'', ''-t'', ''overlay'', ''overlay'', ''-o'',
            ''lowerdir=/tmp/proxy_pool/layers/bb:/tmp/proxy_pool/layers/aa,upperdir=/base/upper,workdir=/base/work'',
            ''/base/merged''],
      Tool [''mount'', ''-t'', ''proc'', ''none'', ''/base/merged/proc''],
      Tool [''mount'', ''-t'', ''sysfs'', ''none'', ''/base/merged/sys''],
      Tool [''mount'', ''-t'', ''devtmpfs'', ''devtmpfs'', ''/base/merged/dev''],
      Tool [''mount'', ''-t'', ''devpts'', ''devpts'', ''/base/merged/dev/pts''],
      Tool [''mount'', ''-t'', ''tmpfs'', ''shm'', ''/base/merged/dev/shm''],
      Tool [''mount'', ''-t'', ''tmpfs'', ''tmpfs'', ''/base/merged/run''],
      Tool [''mount'', ''-t'', ''tmpfs'', ''tmpfs'', ''/base/merged/tmp''],
      Tool [''mount'', ''--bind'', ''/vol'', ''/base/merged/volume''],
      Pivot ''.'' ''.'',
      Tool [''umount'', ''-l'', ''.'']]"
  by (simp add: all_stages_def a_sample_def w_tmpfs_fails_def w_quiet_def s_init_def run_defs
      new_events_def tool_def exec_Command_def)

section \<open>The claims\<close>

text \<open>
  C1. For a manifest with the layers \<open>L0, ..., Ln\<close>, each digest holding a
  colon, the loop of \<^verbatim>\<open>setLayers\<close> builds the lower directories
  \<open>path Ln, ..., path L0\<close>: the manifest order reversed, where the path of a
  layer is the layer cache root joined with the hex portion of its digest. The
  run issues exactly one overlay mount, and its \<open>lowerdir=\<close> option is that
  list joined with colons.
\<close>

theorem setLayers_lower_dirs_reversed:
  assumes "manifest_json w (trace s) m = Inr layers"
    and "\<forall>l\<in>set layers. CHR '':'' \<in> set (Digest l)"
  shows "lowerDirs_loop layers (length layers) [] = Inr (rev (map layer_path layers))
       \<and> filter is_overlay_mount (mount_ops (new_events s (snd (setLayers w m b t s)))) =
           [Tool [''mount'', ''-t'', ''overlay'', ''overlay'', ''-o'',
                  ''lowerdir='' @ strings_Join (rev (map layer_path layers)) '':''
                    @ '',upperdir='' @ filepath_Join [b, ''upper'']
                    @ '',workdir='' @ filepath_Join [b, ''work''],
                  t]]"
proof
  show "lowerDirs_loop layers (length layers) [] = Inr (rev (map layer_path layers))"
    by (rule lowerDirs_loop_all [OF assms(2)])
next
  let ?s1 = "log (Call (ReadJSON m) None) s"
  define n12 where "n12 = new_events ?s1
      (snd (prepareDirs w b [filepath_Join [b, ''upper''], filepath_Join [b, ''work''], t] ?s1))"
  have p: "filter is_overlay_mount (mount_ops n12) = []"
    unfolding n12_def by (simp add: prepareDirs_mount_ops del: filepath_Join.simps)
  from setLayers_events [OF assms, of b t] obtain pr e where
    "new_events s (snd (setLayers w m b t s)) =
       Call (ReadJSON m) None # n12 @
       [Print pr, Call (Run (tool ''mount'' [''-t'', ''overlay'', ''overlay'', ''-o'',
                  ''lowerdir='' @ strings_Join (rev (map layer_path layers)) '':''
                    @ '',upperdir='' @ filepath_Join [b, ''upper'']
                    @ '',workdir='' @ filepath_Join [b, ''work''], t])) e]"
    unfolding n12_def by blast
  then show "filter is_overlay_mount (mount_ops (new_events s (snd (setLayers w m b t s)))) =
           [Tool [''mount'', ''-t'', ''overlay'', ''overlay'', ''-o'',
                  ''lowerdir='' @ strings_Join (rev (map layer_path layers)) '':''
                    @ '',upperdir='' @ filepath_Join [b, ''upper'']
                    @ '',workdir='' @ filepath_Join [b, ''work''],
                  t]]"
    using p by (simp del: filepath_Join.simps)
qed


theorem setLayers_lower_dirs_reversed_witness:
  "manifest_json w_quiet (trace s_init) ''/m'' =
      Inr [\<lparr>Digest = ''sha256:aa'', MediaType = ''tar'', Size = 1\<rparr>,
           \<lparr>Digest = ''sha256:bb'', MediaType = ''tar'', Size = 2\<rparr>]
   \<and> CHR '':'' \<in> set ''sha256:aa'' \<and> CHR '':'' \<in> set ''sha256:bb''
   \<and> filter is_overlay_mount
        (mount_ops (new_events s_init (snd (setLayers w_quiet ''/m'' ''/base'' ''/base/merged'' s_init)))) =
       [Tool [''mount'', ''-t'', ''overlay'', ''overlay'', ''-o'',
              ''lowerdir=/tmp/proxy_pool/layers/bb:/tmp/proxy_pool/layers/aa,upperdir=/base/upper,workdir=/base/work'',
              ''/base/merged'']]"
proof -
  let ?layers = "[\<lparr>Digest = ''sha256:aa'', MediaType = ''tar'', Size = 1\<rparr>,
                  \<lparr>Digest = ''sha256:bb'', MediaType = ''tar'', Size = (2 :: 64 word)\<rparr>]"
  have h1: "manifest_json w_quiet (trace s_init) ''/m'' = Inr ?layers"
    by (simp add: w_quiet_def)
  have h2: "\<forall>l\<in>set ?layers. CHR '':'' \<in> set (Digest l)"
    by simp
  have p: "layer_path \<lparr>Digest = ''sha256:aa'', MediaType = ''tar'', Size = 1\<rparr> = ''/tmp/proxy_pool/layers/aa''"
    "layer_path \<lparr>Digest = ''sha256:bb'', MediaType = ''tar'', Size = 2\<rparr> = ''/tmp/proxy_pool/layers/bb''"
    by (simp_all add: layer_path_def digest_hex_def layer_cache_root_def filepath_Clean_def)
  have j: "filepath_Join [''/base'', ''upper''] = ''/base/upper''"
    "filepath_Join [''/base'', ''work''] = ''/base/work''"
    by (simp_all add: filepath_Clean_def)
  show ?thesis
    using h1 setLayers_lower_dirs_reversed [OF h1 h2, of "''/base''" "''/base/merged''"]
    by (simp add: p j del: filepath_Join.simps)
qed

text \<open>
  C2. On a run of the child in which every stage succeeds (each of the six
  stages returns \<^verbatim>\<open>nil\<close>, and no call made on the way failed), the
  mount operations issued are, in this order and with no other: the recursive
  private remount of \<open>/\<close>, the tmpfs on the base directory, the overlay
  mount on \<open>merged\<close> with the lower directories of the manifest's layers, the
  mounts of proc, sysfs, devtmpfs, devpts, shm and the two tmpfs on \<open>run\<close> and
  \<open>tmp\<close> under \<open>merged\<close>, the bind mount of the volume on
  \<open>merged/volume\<close>, the pivot-root of \<open>.\<close> onto \<open>.\<close>, and the lazy unmount
  of \<open>.\<close>.
\<close>

theorem childProcess_mount_sequence:
  assumes "run_stages w a all_stages s = Some s6"
    and "\<forall>ev\<in>set (new_events s s6). \<not> failed ev"
  shows "\<exists>layers t.
      manifest_json w t (manifestPath a) = Inr layers \<and>
      mount_ops (new_events s
        (snd (childProcess w (configPath a) (manifestPath a) (baseDir a) (volumeDir a) s))) =
     [Tool [''mount'', ''--make-rprivate'', ''/''],
      Tool [''mount'', ''-t'', ''tmpfs'', ''tmpfs'', baseDir a],
      Tool [''mount'', ''-t'', ''overlay'', ''overlay'', ''-o'',
            ''lowerdir='' @ strings_Join (rev (map layer_path layers)) '':''
              @ '',upperdir='' @ filepath_Join [baseDir a, ''upper'']
              @ '',workdir='' @ filepath_Join [baseDir a, ''work''],
            merged a],
      Tool [''mount'', ''-t'', ''proc'', ''none'', filepath_Join [merged a, ''proc'']],
      Tool [''mount'', ''-t'', ''sysfs'', ''none'', filepath_Join [merged a, ''sys'']],
      Tool [''mount'', ''-t'', ''devtmpfs'', ''devtmpfs'', filepath_Join [merged a, ''dev'']],
      Tool [''mount'', ''-t'', ''devpts'', ''devpts'', filepath_Join [merged a, ''dev/pts'']],
      Tool [''mount'', ''-t'', ''tmpfs'', ''shm'', filepath_Join [merged a, ''dev/shm'']],
      Tool [''mount'', ''-t'', ''tmpfs'', ''tmpfs'', filepath_Join [merged a, ''run'']],
      Tool [''mount'', ''-t'', ''tmpfs'', ''tmpfs'', filepath_Join [merged a, ''tmp'']],
      Tool [''mount'', ''--bind'', volumeDir a, filepath_Join [merged a, ''volume'']],
      Pivot ''.'' ''.'',
      Tool [''umount'', ''-l'', ''.'']]"
proof -
  from run_stages_all [OF assms(1)] obtain s1 s2 s3 s4 s5 where
    st1: "mountRecPrivate w s = (None, s1)" and
    st2: "setEnv w (configPath a) s1 = (None, s2)" and
    st3: "setLayers w (manifestPath a) (baseDir a) (merged a) s2 = (Returns None, s3)" and
    st4: "mountBaseFs w (merged a) s3 = (None, s4)" and
    st5: "mountVolume w (volumeDir a) (merged a) s4 = (None, s5)" and
    st6: "chroot w (merged a) s5 = (None, s6)"
    by blast
  have q01: "quiet s s1" using mountRecPrivate_quiet [of s w] st1 by simp
  have q12: "quiet s1 s2" using setEnv_quiet [of s1 w "configPath a"] st2 by simp
  have q23: "quiet s2 s3" using setLayers_quiet [of s2 w "manifestPath a" "baseDir a" "merged a"] st3 by simp
  have q34: "quiet s3 s4" using mountBaseFs_quiet [of s3 w "merged a"] st4 by simp
  have q45: "quiet s4 s5" using mountVolume_quiet [of s4 w "volumeDir a" "merged a"] st5 by simp
  have q56: "quiet s5 s6" using chroot_quiet [of s5 w "merged a"] st6 by simp
  have q02: "quiet s s2" by (rule quiet_trans [OF q01 q12])
  have q03: "quiet s s3" by (rule quiet_trans [OF q02 q23])
  have q04: "quiet s s4" by (rule quiet_trans [OF q03 q34])
  have q05: "quiet s s5" by (rule quiet_trans [OF q04 q45])
  have q06: "quiet s s6" by (rule quiet_trans [OF q05 q56])
  have n6: "new_events s s6 = new_events s s1 @ new_events s1 s2 @ new_events s2 s3
      @ new_events s3 s4 @ new_events s4 s5 @ new_events s5 s6"
    unfolding new_events_trans [OF q05 q56] new_events_trans [OF q04 q45]
      new_events_trans [OF q03 q34] new_events_trans [OF q02 q23] new_events_trans [OF q01 q12]
    by simp
  have nf: "\<forall>ev\<in>set (new_events s2 s3). \<not> failed ev"
    using assms(2) unfolding n6 by simp
  from setLayers_ok [OF st3 nf] obtain layers where
    man: "manifest_json w (trace s2) (manifestPath a) = Inr layers" and
    m3: "mount_ops (new_events s2 s3) =
     [Tool [''mount'', ''-t'', ''tmpfs'', ''tmpfs'', baseDir a],
      Tool [''mount'', ''-t'', ''overlay'', ''overlay'', ''-o'',
            ''lowerdir='' @ strings_Join (rev (map layer_path layers)) '':''
              @ '',upperdir='' @ filepath_Join [baseDir a, ''upper'']
              @ '',workdir='' @ filepath_Join [baseDir a, ''work''], merged a]]"
    by blast
  let ?final = "snd (childProcess w (configPath a) (manifestPath a) (baseDir a) (volumeDir a) s)"
  let ?tail = "snd (case call w (Run shell_command) s6 of
              (Some err, s') \<Rightarrow> (Returns (), fmt_Printf_err msg_shell err s')
            | (None, s') \<Rightarrow> (Returns (), s'))"
  have fin: "?final = ?tail"
    by (simp only: childProcess_stages_ok [OF assms(1)])
  from shell_tail_grows [of w s6] obtain evs where g: "trace ?tail = trace s6 @ evs" by blast
  have n7: "new_events s ?tail = new_events s s6 @ new_events s6 ?tail"
    by (rule new_events_grow [OF q06 g])
  have "mount_ops (new_events s ?final) =
      mount_ops (new_events s s1) @ mount_ops (new_events s1 s2) @ mount_ops (new_events s2 s3)
      @ mount_ops (new_events s3 s4) @ mount_ops (new_events s4 s5) @ mount_ops (new_events s5 s6)"
    unfolding fin n7 n6 by (simp add: shell_tail_mount_ops)
  then have final: "mount_ops (new_events s ?final) =
     [Tool [''mount'', ''--make-rprivate'', ''/''],
      Tool [''mount'', ''-t'', ''tmpfs'', ''tmpfs'', baseDir a],
      Tool [''mount'', ''-t'', ''overlay'', ''overlay'', ''-o'',
            ''lowerdir='' @ strings_Join (rev (map layer_path layers)) '':''
              @ '',upperdir='' @ filepath_Join [baseDir a, ''upper'']
              @ '',workdir='' @ filepath_Join [baseDir a, ''work''],
            merged a],
      Tool [''mount'', ''-t'', ''proc'', ''none'', filepath_Join [merged a, ''proc'']],
      Tool [''mount'', ''-t'', ''sysfs'', ''none'', filepath_Join [merged a, ''sys'']],
      Tool [''mount'', ''-t'', ''devtmpfs'', ''devtmpfs'', filepath_Join [merged a, ''dev'']],
      Tool [''mount'', ''-t'', ''devpts'', ''devpts'', filepath_Join [merged a, ''dev/pts'']],
      Tool [''mount'', ''-t'', ''tmpfs'', ''shm'', filepath_Join [merged a, ''dev/shm'']],
      Tool [''mount'', ''-t'', ''tmpfs'', ''tmpfs'', filepath_Join [merged a, ''run'']],
      Tool [''mount'', ''-t'', ''tmpfs'', ''tmpfs'', filepath_Join [merged a, ''tmp'']],
      Tool [''mount'', ''--bind'', volumeDir a, filepath_Join [merged a, ''volume'']],
      Pivot ''.'' ''.'',
      Tool [''umount'', ''-l'', ''.'']]"
    by (simp only: mountRecPrivate_ok [OF st1] setEnv_mount_ops [of s1 w "configPath a", unfolded st2 snd_conv]
        m3 mountBaseFs_ok [OF st4] mountVolume_ok [OF st5] chroot_ok [OF st6] append.simps)
  show ?thesis by (rule exI, rule exI, rule conjI, rule man, rule final)
qed

theorem childProcess_mount_sequence_witness:
  "(case run_stages w_quiet a_sample all_stages s_init of
      None \<Rightarrow> False
    | Some s6 \<Rightarrow> list_all (\<lambda>ev. \<not> failed ev) (new_events s_init s6))
   \<and> mount_ops (new_events s_init (snd (childProcess w_quiet ''/c'' ''/m'' ''/base'' ''/vol'' s_init))) =
     [Tool [''mount'', ''--make-rprivate'', ''/''],
      Tool [''mount'', ''-t'', ''tmpfs'', ''tmpfs'', ''/base''],
      Tool [''mount'', ''-t'', ''overlay'', ''overlay'', ''-o'',
            ''lowerdir=/tmp/proxy_pool/layers/bb:/tmp/proxy_pool/layers/aa,upperdir=/base/upper,workdir=/base/work'',
            ''/base/merged''],
      Tool [''mount'', ''-t'', ''proc'', ''none'', ''/base/merged/proc''],
      Tool [''mount'', ''-t'', ''sysfs'', ''none'', ''/base/merged/sys''],
      Tool [''mount'', ''-t'', ''devtmpfs'', ''devtmpfs'', ''/base/merged/dev''],
      Tool [''mount'', ''-t'', ''devpts'', ''devpts'', ''/base/merged/dev/pts''],
      Tool [''mount'', ''-t'', ''tmpfs'', ''shm'', ''/base/merged/dev/shm''],
      Tool [''mount'', ''-t'', ''tmpfs'', ''tmpfs'', ''/base/merged/run''],
      Tool [''mount'', ''-t'', ''tmpfs'', ''tmpfs'', ''/base/merged/tmp''],
      Tool [''mount'', ''--bind'', ''/vol'', ''/base/merged/volume''],
      Pivot ''.'' ''.'',
      Tool [''umount'', ''-l'', ''.'']]"
proof -
  have e: "case run_stages w_quiet a_sample all_stages s_init of
      None \<Rightarrow> False
    | Some s6 \<Rightarrow> list_all (\<lambda>ev. \<not> failed ev) (new_events s_init s6)"
    by (simp add: all_stages_def a_sample_def w_quiet_def s_init_def run_defs new_events_def)
  then obtain s6 where h1: "run_stages w_quiet a_sample all_stages s_init = Some s6"
    and h2: "\<forall>ev\<in>set (new_events s_init s6). \<not> failed ev"
    by (cases "run_stages w_quiet a_sample all_stages s_init") (simp_all add: list_all_iff)
  from childProcess_mount_sequence [OF h1 h2] obtain layers t where
    man: "manifest_json w_quiet t (manifestPath a_sample) = Inr layers" and
    m: "mount_ops (new_events s_init
        (snd (childProcess w_quiet (configPath a_sample) (manifestPath a_sample)
                (baseDir a_sample) (volumeDir a_sample) s_init))) =
     [Tool [''mount'', ''--make-rprivate'', ''/''],
      Tool [''mount'', ''-t'', ''tmpfs'', ''tmpfs'', baseDir a_sample],
      Tool [''mount'', ''-t'', ''overlay'', ''overlay'', ''-o'',
            ''lowerdir='' @ strings_Join (rev (map layer_path layers)) '':''
              @ '',upperdir='' @ filepath_Join [baseDir a_sample, ''upper'']
              @ '',workdir='' @ filepath_Join [baseDir a_sample, ''work''],
            merged a_sample],
      Tool [''mount'', ''-t'', ''proc'', ''none'', filepath_Join [merged a_sample, ''proc'']],
      Tool [''mount'', ''-t'', ''sysfs'', ''none'', filepath_Join [merged a_sample, ''sys'']],
      Tool [''mount'', ''-t'', ''devtmpfs'', ''devtmpfs'', filepath_Join [merged a_sample, ''dev'']],
      Tool [''mount'', ''-t'', ''devpts'', ''devpts'', filepath_Join [merged a_sample, ''dev/pts'']],
      Tool [''mount'', ''-t'', ''tmpfs'', ''shm'', filepath_Join [merged a_sample, ''dev/shm'']],
      Tool [''mount'', ''-t'', ''tmpfs'', ''tmpfs'', filepath_Join [merged a_sample, ''run'']],
      Tool [''mount'', ''-t'', ''tmpfs'', ''tmpfs'', filepath_Join [merged a_sample, ''tmp'']],
      Tool [''mount'', ''--bind'', volumeDir a_sample, filepath_Join [merged a_sample, ''volume'']],
      Pivot ''.'' ''.'',
      Tool [''umount'', ''-l'', ''.'']]"
    by (elim exE conjE)
  from man have l: "layers = [\<lparr>Digest = ''sha256:aa'', MediaType = ''tar'', Size = 1\<rparr>,
                            \<lparr>Digest = ''sha256:bb'', MediaType = ''tar'', Size = 2\<rparr>]"
    by (simp add: w_quiet_def)
  show ?thesis
    using e m
    by (simp add: l a_sample_def merged_def layer_path_def digest_hex_def layer_cache_root_def
        filepath_Clean_def)
qed

text \<open>
  C3. The claim is that every error arising in a step of the overlay assembler
  is wrapped and handed to the caller of \<^verbatim>\<open>setLayers\<close>. \<^verbatim>\<open>prepareDirs\<close> does
  wrap and return the errors of its steps, but \<^verbatim>\<open>setLayers\<close> calls it as a
  statement and drops what it returns. In the world where mounting the tmpfs on
  the base directory fails, \<^verbatim>\<open>prepareDirs\<close> returns that error wrapped twice,
  and \<^verbatim>\<open>setLayers\<close> nevertheless returns \<^verbatim>\<open>nil\<close>, the failed mount being the
  one failed call in its log.
\<close>

theorem setLayers_discards_prepareDirs_error:
  "fst (prepareDirs w_tmpfs_fails ''/base'' [''/base/upper'', ''/base/work'', ''/base/merged'']
          (snd (loadManifest w_tmpfs_fails ''/m'' s_init))) =
     Some (WithMessage (WithMessage (SysErr False ''exit status 32'') ''mount output: '') msg_mount_tmpfs)
   \<and> fst (setLayers w_tmpfs_fails ''/m'' ''/base'' ''/base/merged'' s_init) = Returns None
   \<and> filter failed (new_events s_init (snd (setLayers w_tmpfs_fails ''/m'' ''/base'' ''/base/merged'' s_init))) =
       [Call (Run (tool ''mount'' [''-t'', ''tmpfs'', ''tmpfs'', ''/base''])) (Some (SysErr False ''exit status 32''))]"
  by (simp add: w_tmpfs_fails_def w_quiet_def s_init_def run_defs new_events_def tool_def
      exec_Command_def)



text \<open>
  C5. The claim is that a failure of any stage makes \<^verbatim>\<open>childProcess\<close> print
  the wrapped error and return, so that no later stage runs and the shell is
  never launched. That holds for a failure the stage reports. A failure the
  overlay stage does not report breaks it: \<^verbatim>\<open>setLayers\<close> drops what
  \<^verbatim>\<open>prepareDirs\<close> returns (see C3). In the world where mounting the tmpfs on
  the base directory fails, that mount is the one failed call of the run, yet
  the overlay mount and every later stage follow, the last event of the log is
  the launch of \<^verbatim>\<open>/bin/sh\<close>, and the child returns normally.
\<close>

theorem childProcess_goes_on_after_dropped_error:
  "fst (childProcess w_tmpfs_fails ''/c'' ''/m'' ''/base'' ''/vol'' s_init) = Returns ()
   \<and> filter failed (new_events s_init (snd (childProcess w_tmpfs_fails ''/c'' ''/m'' ''/base'' ''/vol'' s_init))) =
       [Call (Run (tool ''mount'' [''-t'', ''tmpfs'', ''tmpfs'', ''/base''])) (Some (SysErr False ''exit status 32''))]
   \<and> mount_ops (new_events s_init (snd (childProcess w_tmpfs_fails ''/c'' ''/m'' ''/base'' ''/vol'' s_init))) =
     [Tool [''mount'', ''--make-rprivate'', ''/''],
      Tool [''mount'', ''-t'', ''tmpfs'', ''tmpfs'', ''/base''],
      Tool [''mount'', ''-t'', ''overlay'', ''overlay'', ''-o'',
            ''lowerdir=/tmp/proxy_pool/layers/bb:/tmp/proxy_pool/layers/aa,upperdir=/base/upper,workdir=/base/work'',
            ''/base/merged''],
      Tool [''mount'', ''-t'', ''proc'', ''none'', ''/base/merged/proc''],
      Tool [''mount'', ''-t'', ''sysfs'', ''none'', ''/base/merged/sys''],
      Tool [''mount'', ''-t'', ''devtmpfs'', ''devtmpfs'', ''/base/merged/dev''],
      Tool [''mount'', ''-t'', ''devpts'', ''devpts'', ''/base/merged/dev/pts''],
      Tool [''mount'', ''-t'', ''tmpfs'', ''shm'', ''/base/merged/dev/shm''],
      Tool [''mount'', ''-t'', ''tmpfs'', ''tmpfs'', ''/base/merged/run''],
      Tool [''mount'', ''-t'', ''tmpfs'', ''tmpfs'', ''/base/merged/tmp''],
      Tool [''mount'', ''--bind'', ''/vol'', ''/base/merged/volume''],
      Pivot ''.'' ''.'',
      Tool [''umount'', ''-l'', ''.'']]
   \<and> filter launches_shell (new_events s_init (snd (childProcess w_tmpfs_fails ''/c'' ''/m'' ''/base'' ''/vol'' s_init))) =
       [Call (Run shell_command) None]
   \<and> last (trace (snd (childProcess w_tmpfs_fails ''/c'' ''/m'' ''/base'' ''/vol'' s_init))) =
       Call (Run shell_command) None"
proof -
  from tmpfs_fails_stages obtain s6 where
    h: "run_stages w_tmpfs_fails a_sample all_stages s_init = Some s6" and
    f: "filter failed (new_events s_init s6) =
         [Call (Run (tool ''mount'' [''-t'', ''tmpfs'', ''tmpfs'', ''/base''])) (Some (SysErr False ''exit status 32''))]" and
    m: "mount_ops (new_events s_init s6) =
     [Tool [''mount'', ''--make-rprivate'', ''/''],
      Tool [''mount'', ''-t'', ''tmpfs'', ''tmpfs'', ''/base''],
      Tool [''mount'', ''-t'', ''overlay'', ''overlay'', ''-o'',
            ''lowerdir=/tmp/proxy_pool/layers/bb:/tmp/proxy_pool/layers/aa,upperdir=/base/upper,workdir=/base/work'',
            ''/base/merged''],
      Tool [''mount'', ''-t'', ''proc'', ''none'', ''/base/merged/proc''],
      Tool [''mount'', ''-t'', ''sysfs'', ''none'', ''/base/merged/sys''],
      Tool [''mount'', ''-t'', ''devtmpfs'', ''devtmpfs'', ''/base/merged/dev''],
      Tool [''mount'', ''-t'', ''devpts'', ''devpts'', ''/base/merged/dev/pts''],
      Tool [''mount'', ''-t'', ''tmpfs'', ''shm'', ''/base/merged/dev/shm''],
      Tool [''mount'', ''-t'', ''tmpfs'', ''tmpfs'', ''/base/merged/run''],
      Tool [''mount'', ''-t'', ''tmpfs'', ''tmpfs'', ''/base/merged/tmp''],
      Tool [''mount'', ''--bind'', ''/vol'', ''/base/merged/volume''],
      Pivot ''.'' ''.'',
      Tool [''umount'', ''-l'', ''.'']]"
    by (cases "run_stages w_tmpfs_fails a_sample all_stages s_init") simp_all
  have q: "quiet s_init s6" by (rule run_stages_quiet [OF h])
  have sh: "sys w_tmpfs_fails t (Run shell_command) = None" for t
    by (simp add: w_tmpfs_fails_def shell_command_def tool_def exec_Command_def)
  have eq: "childProcess w_tmpfs_fails ''/c'' ''/m'' ''/base'' ''/vol'' s_init =
      (Returns (), log (Call (Run shell_command) None) s6)"
    using childProcess_stages_ok [OF h] by (simp add: a_sample_def call_eq sh)
  have n: "new_events s_init (log (Call (Run shell_command) None) s6) =
      new_events s_init s6 @ [Call (Run shell_command) None]"
    using new_events_grow [OF q, of "log (Call (Run shell_command) None) s6" "[Call (Run shell_command) None]"]
    by simp
  have ns: "filter launches_shell (new_events s_init s6) = []"
    using quiet_new_events [OF q] by (simp add: filter_empty_conv)
  have p: "Path shell_command = ''/bin/sh''"
    by (simp add: shell_command_def exec_Command_def)
  show ?thesis
    by (simp add: eq n f m ns p)
qed

text \<open>
  C6. When the first argument is the sentinel \<open>child\<close>, the arguments after
  it decide: with any number of them other than four, \<^verbatim>\<open>main\<close> prints the
  usage message and exits with status 1, having made no call at all, so no
  mount either; with exactly four, it runs \<^verbatim>\<open>childProcess\<close> on those four
  paths and ends as that ends.
\<close>

theorem main_child_arguments:
  assumes "length args > 1" and "args ! 1 = ''child''"
  shows "(length (drop 2 args) \<noteq> 4 \<longrightarrow>
            main w args s = (Exited 1, fmt_Println [''Invalid number of arguments for child process''] s)
          \<and> exit_status (fst (main w args s)) \<noteq> 0
          \<and> filter is_call (new_events s (snd (main w args s))) = [])
       \<and> (\<forall>c m b v. drop 2 args = [c, m, b, v] \<longrightarrow>
            main w args s =
              (case childProcess w c m b v s of
                 (Returns u, s') \<Rightarrow> (Returned, s')
               | (Panics p, s') \<Rightarrow> (Crashed p, s')))"
proof (intro conjI impI allI)
  assume n: "length (drop 2 args) \<noteq> 4"
  with assms show m: "main w args s =
      (Exited 1, fmt_Println [''Invalid number of arguments for child process''] s)"
    by (simp add: main_def) arith
  show "exit_status (fst (main w args s)) \<noteq> 0" by (simp add: m)
  show "filter is_call (new_events s (snd (main w args s))) = []"
    by (simp add: m fmt_Println_def)
next
  fix c m b v
  assume d: "drop 2 args = [c, m, b, v]"
  have "length args - 2 = length [c, m, b, v]"
    by (simp only: d [symmetric] length_drop)
  then have len: "length args = 6" by simp
  have nth: "args ! 2 = c" "args ! 3 = m" "args ! 4 = b" "args ! 5 = v"
    using arg_cong [OF d, of "\<lambda>xs. xs ! 0"] arg_cong [OF d, of "\<lambda>xs. xs ! 1"]
      arg_cong [OF d, of "\<lambda>xs. xs ! 2"] arg_cong [OF d, of "\<lambda>xs. xs ! 3"] len
    by simp_all
  show "main w args s =
      (case childProcess w c m b v s of
         (Returns u, s') \<Rightarrow> (Returned, s')
       | (Panics p, s') \<Rightarrow> (Crashed p, s'))"
    using assms len nth by (simp add: main_def)
qed

theorem main_child_arguments_witness:
  "main w_quiet [''prog'', ''child'', ''/c'', ''/m'', ''/b''] s_init =
     (Exited 1, fmt_Println [''Invalid number of arguments for child process''] s_init)
   \<and> main w_quiet [''prog'', ''child'', ''/c'', ''/m'', ''/b'', ''/v''] s_init =
     (case childProcess w_quiet ''/c'' ''/m'' ''/b'' ''/v'' s_init of
        (Returns u, s') \<Rightarrow> (Returned, s')
      | (Panics p, s') \<Rightarrow> (Crashed p, s'))"
  using main_child_arguments [of "[''prog'', ''child'', ''/c'', ''/m'', ''/b'']" w_quiet s_init]
    main_child_arguments [of "[''prog'', ''child'', ''/c'', ''/m'', ''/b'', ''/v'']" w_quiet s_init]
  by simp

text \<open>
  C7, as amended. \<^verbatim>\<open>mountVolume\<close> tests the lookup of the host path with
  \<^verbatim>\<open>os.IsNotExist\<close>. When the lookup fails with an error that
  \<^verbatim>\<open>os.IsNotExist\<close> accepts, it returns that error wrapped, and the lookup is
  all it did: no directory was created and no mount issued. In every other
  case, so for a path that exists and also for a lookup that fails in another
  way, its next call creates \<open>merged/volume\<close>, and when that succeeded it
  prints the command and bind-mounts the host path onto \<open>merged/volume\<close>,
  returning \<^verbatim>\<open>nil\<close> exactly when the mount succeeded.
\<close>

theorem mountVolume_checks_host_path:
  "(os_IsNotExist (sys w (trace s) (Stat v)) \<longrightarrow>
      (\<exists>err. fst (mountVolume w v t s) = Some (WithMessage err msg_volume_missing)
             \<and> os_IsNotExist (Some err))
      \<and> new_events s (snd (mountVolume w v t s)) = [Call (Stat v) (sys w (trace s) (Stat v))])
   \<and> (\<not> os_IsNotExist (sys w (trace s) (Stat v)) \<longrightarrow>
      (\<exists>evs. new_events s (snd (mountVolume w v t s)) =
          Call (Stat v) (sys w (trace s) (Stat v))
          # Call (MkdirAll (filepath_Join [t, ''volume'']))
              (sys w (trace s @ [Call (Stat v) (sys w (trace s) (Stat v))])
                 (MkdirAll (filepath_Join [t, ''volume'']))) # evs
        \<and> (case sys w (trace s @ [Call (Stat v) (sys w (trace s) (Stat v))])
                   (MkdirAll (filepath_Join [t, ''volume''])) of
              Some err \<Rightarrow> evs = [] \<and> fst (mountVolume w v t s) = Some (WithMessage err msg_mkdir_volume)
            | None \<Rightarrow>
                (\<exists>p e. evs = [Print p, Call (Run (tool ''mount''
                                 [''--bind'', v, filepath_Join [t, ''volume'']])) e]
                      \<and> (fst (mountVolume w v t s) = None \<longleftrightarrow> e = None)))))"
proof (intro conjI impI)
  assume ne: "os_IsNotExist (sys w (trace s) (Stat v))"
  then have eq: "mountVolume w v t s =
        (errors_Wrap (sys w (trace s) (Stat v)) msg_volume_missing,
         log (Call (Stat v) (sys w (trace s) (Stat v))) s)"
    by (simp add: mountVolume_def call_eq)
  from ne obtain b m where e: "sys w (trace s) (Stat v) = Some (SysErr b m)" and b: "b"
    by (cases "sys w (trace s) (Stat v)" rule: os_IsNotExist.cases) auto
  show "\<exists>err. fst (mountVolume w v t s) = Some (WithMessage err msg_volume_missing)
             \<and> os_IsNotExist (Some err)"
    by (simp add: eq e b)
  show "new_events s (snd (mountVolume w v t s)) = [Call (Stat v) (sys w (trace s) (Stat v))]"
    by (simp add: eq)
next
  assume "\<not> os_IsNotExist (sys w (trace s) (Stat v))"
  then show "\<exists>evs. new_events s (snd (mountVolume w v t s)) =
          Call (Stat v) (sys w (trace s) (Stat v))
          # Call (MkdirAll (filepath_Join [t, ''volume'']))
              (sys w (trace s @ [Call (Stat v) (sys w (trace s) (Stat v))])
                 (MkdirAll (filepath_Join [t, ''volume'']))) # evs
        \<and> (case sys w (trace s @ [Call (Stat v) (sys w (trace s) (Stat v))])
                   (MkdirAll (filepath_Join [t, ''volume''])) of
              Some err \<Rightarrow> evs = [] \<and> fst (mountVolume w v t s) = Some (WithMessage err msg_mkdir_volume)
            | None \<Rightarrow>
                (\<exists>p e. evs = [Print p, Call (Run (tool ''mount''
                                 [''--bind'', v, filepath_Join [t, ''volume'']])) e]
                      \<and> (fst (mountVolume w v t s) = None \<longleftrightarrow> e = None)))"
    by (cases "sys w (trace s @ [Call (Stat v) (sys w (trace s) (Stat v))])
                 (MkdirAll (filepath_Join [t, ''volume'']))")
       (simp_all add: mountVolume_def call_eq run_tool_eq fmt_Println_def new_events_def Let_def
          del: filepath_Join.simps)
qed

theorem mountVolume_checks_host_path_witness:
  "os_IsNotExist (sys w_no_volume (trace s_init) (Stat ''/vol''))
   \<and> new_events s_init (snd (mountVolume w_no_volume ''/vol'' ''/base/merged'' s_init)) =
       [Call (Stat ''/vol'') (Some (SysErr True ''stat /vol: no such file or directory''))]
   \<and> \<not> os_IsNotExist (sys w_quiet (trace s_init) (Stat ''/vol''))
   \<and> mount_ops (new_events s_init (snd (mountVolume w_quiet ''/vol'' ''/base/merged'' s_init))) =
       [Tool [''mount'', ''--bind'', ''/vol'', ''/base/merged/volume'']]"
proof -
  have a: "sys w_no_volume t (Stat ''/vol'') = Some (SysErr True ''stat /vol: no such file or directory'')" for t
    by (simp add: w_no_volume_def)
  have b: "sys w_quiet t c = None" for t c
    by (simp add: w_quiet_def)
  have j: "filepath_Join [''/base/merged'', ''volume''] = ''/base/merged/volume''"
    by (simp add: filepath_Clean_def)
  show ?thesis
    using mountVolume_checks_host_path [of w_no_volume s_init "''/vol''" "''/base/merged''"]
      mountVolume_checks_host_path [of w_quiet s_init "''/vol''" "''/base/merged''"]
    by (auto simp: a b j simp del: filepath_Join.simps)
qed

text \<open>
  C7 as stated speaks of every host path that does not exist. It fails for
  \<open>/f/x\<close> where \<open>/f\<close> is a regular file: the path does not exist, its
  lookup fails with ENOTDIR, and \<^verbatim>\<open>mountVolume\<close> goes on to create
  \<open>merged/volume\<close> and to bind-mount \<open>/f/x\<close> onto it, returning \<^verbatim>\<open>nil\<close>
  when these succeed.
\<close>

theorem mountVolume_missing_path_counterexample:
  "sys w_not_dir (trace s_init) (Stat ''/f/x'') = Some (SysErr False ''stat /f/x: not a directory'')
   \<and> fst (mountVolume w_not_dir ''/f/x'' ''/base/merged'' s_init) = None
   \<and> filter is_call (new_events s_init (snd (mountVolume w_not_dir ''/f/x'' ''/base/merged'' s_init))) =
       [Call (Stat ''/f/x'') (Some (SysErr False ''stat /f/x: not a directory'')),
        Call (MkdirAll ''/base/merged/volume'') None,
        Call (Run (tool ''mount'' [''--bind'', ''/f/x'', ''/base/merged/volume''])) None]"
  by (simp add: w_not_dir_def w_quiet_def s_init_def mountVolume_def call_eq run_tool_eq
      fmt_Println_def log_def Let_def filepath_Clean_def new_events_def)

text \<open>
  C8. The namespace launcher runs exactly one command and nothing else: the
  program itself (\<^verbatim>\<open>/proc/self/exe\<close>) with the arguments \<open>child\<close> and the
  four paths, the parent's three standard streams, and clone flags that are the
  bitwise OR of the UTS, IPC, NET, mount and PID flags, so that of all
  namespaces exactly these five are requested. It issues no mount operation,
  and its result is the result of running the child to its end.
\<close>

theorem runInNamespace_launch:
  "runInNamespace w c m b v s =
     (sys w (trace s) (Run (child_command c m b v)),
      log (Call (Run (child_command c m b v)) (sys w (trace s) (Run (child_command c m b v)))) s)
   \<and> new_events s (snd (runInNamespace w c m b v s)) =
       [Call (Run (child_command c m b v)) (fst (runInNamespace w c m b v s))]
   \<and> mount_ops (new_events s (snd (runInNamespace w c m b v s))) = []
   \<and> Path (child_command c m b v) = ''/proc/self/exe''
   \<and> Args (child_command c m b v) = [''/proc/self/exe'', ''child'', c, m, b, v]
   \<and> Stdin (child_command c m b v) = OS_Stdin
   \<and> Stdout (child_command c m b v) = OS_Stdout
   \<and> Stderr (child_command c m b v) = OS_Stderr
   \<and> Cloneflags (child_command c m b v) =
       CLONE_NEWUTS OR CLONE_NEWIPC OR CLONE_NEWNET OR CLONE_NEWNS OR CLONE_NEWPID
   \<and> {ns. requested (child_command c m b v) ns} = {NS_uts, NS_ipc, NS_net, NS_mount, NS_pid}"
proof -
  have flags: "Cloneflags (child_command c m b v) = 0x6C020000"
    by (simp add: child_command_def CLONE_NEWUTS_def CLONE_NEWIPC_def CLONE_NEWNET_def
        CLONE_NEWNS_def CLONE_NEWPID_def)
  have req: "requested (child_command c m b v) ns \<longleftrightarrow> ns \<in> {NS_uts, NS_ipc, NS_net, NS_mount, NS_pid}" for ns
    by (cases ns)
       (simp_all add: requested_def flags CLONE_NEWUTS_def CLONE_NEWIPC_def CLONE_NEWNET_def
          CLONE_NEWNS_def CLONE_NEWPID_def CLONE_NEWCGROUP_def CLONE_NEWUSER_def CLONE_NEWTIME_def)
  have path: "Path (child_command c m b v) = ''/proc/self/exe''"
    by (simp add: child_command_def exec_Command_def)
  show ?thesis
    using req path
    by (auto simp: runInNamespace_def call_eq child_command_def exec_Command_def)
qed

theorem runInNamespace_launch_witness:
  "fst (runInNamespace w_quiet ''/c'' ''/m'' ''/b'' ''/v'' s_init) = None
   \<and> trace (snd (runInNamespace w_quiet ''/c'' ''/m'' ''/b'' ''/v'' s_init)) =
       [Call (Run (child_command ''/c'' ''/m'' ''/b'' ''/v'')) None]
   \<and> requested (child_command ''/c'' ''/m'' ''/b'' ''/v'') NS_pid
   \<and> \<not> requested (child_command ''/c'' ''/m'' ''/b'' ''/v'') NS_user"
  using runInNamespace_launch [of w_quiet "''/c''" "''/m''" "''/b''" "''/v''" s_init]
  by (auto simp: w_quiet_def s_init_def)

text \<open>
  C9. Once the manifest is loaded, \<^verbatim>\<open>setLayers\<close> panics with an index out of
  range (index 1 of a split of length 1) when some layer's digest holds no
  colon, instead of returning an error; when every digest holds a colon it
  returns.
\<close>

theorem setLayers_panics_without_colon:
  assumes "manifest_json w (trace s) m = Inr layers"
  shows "((\<exists>l\<in>set layers. CHR '':'' \<notin> set (Digest l)) \<longrightarrow>
            fst (setLayers w m b t s) = Panics (IndexOutOfRange 1 1))
       \<and> ((\<forall>l\<in>set layers. CHR '':'' \<in> set (Digest l)) \<longrightarrow>
            (\<exists>r. fst (setLayers w m b t s) = Returns r))"
proof (intro conjI impI)
  assume "\<exists>l\<in>set layers. CHR '':'' \<notin> set (Digest l)"
  then have "\<exists>j<length layers. CHR '':'' \<notin> set (Digest (layers ! j))"
    by (auto simp: in_set_conv_nth)
  then have "lowerDirs_loop layers (length layers) [] = Inl (IndexOutOfRange 1 1)"
    by (rule lowerDirs_loop_panic)
  then show "fst (setLayers w m b t s) = Panics (IndexOutOfRange 1 1)"
    using loadManifest_ok [OF assms]
    by (simp add: setLayers_def Let_def del: filepath_Join.simps)
next
  assume "\<forall>l\<in>set layers. CHR '':'' \<in> set (Digest l)"
  from setLayers_events [OF assms this, of b t]
  show "\<exists>r. fst (setLayers w m b t s) = Returns r" by blast
qed

theorem setLayers_panics_without_colon_witness:
  "manifest_json w_bad_digest (trace s_init) ''/m'' =
      Inr [\<lparr>Digest = ''sha256:aa'', MediaType = ''tar'', Size = 1\<rparr>,
           \<lparr>Digest = ''bb'', MediaType = ''tar'', Size = 2\<rparr>]
   \<and> fst (setLayers w_bad_digest ''/m'' ''/base'' ''/base/merged'' s_init) = Panics (IndexOutOfRange 1 1)
   \<and> (\<exists>r. fst (setLayers w_quiet ''/m'' ''/base'' ''/base/merged'' s_init) = Returns r)"
proof -
  let ?bad = "[\<lparr>Digest = ''sha256:aa'', MediaType = ''tar'', Size = 1\<rparr>,
               \<lparr>Digest = ''bb'', MediaType = ''tar'', Size = (2 :: 64 word)\<rparr>]"
  let ?good = "[\<lparr>Digest = ''sha256:aa'', MediaType = ''tar'', Size = 1\<rparr>,
                \<lparr>Digest = ''sha256:bb'', MediaType = ''tar'', Size = (2 :: 64 word)\<rparr>]"
  have h1: "manifest_json w_bad_digest (trace s_init) ''/m'' = Inr ?bad"
    by (simp add: w_bad_digest_def)
  have h2: "manifest_json w_quiet (trace s_init) ''/m'' = Inr ?good"
    by (simp add: w_quiet_def)
  show ?thesis
    using h1 setLayers_panics_without_colon [OF h1, of "''/base''" "''/base/merged''"]
      setLayers_panics_without_colon [OF h2, of "''/base''" "''/base/merged''"]
    by simp
qed

text \<open>
  C10. When the first argument is absent or is not \<open>child\<close>, the arguments
  play no part: \<^verbatim>\<open>main\<close> does what it does without any argument. It creates
  the fixed volume directory and, when that succeeded, runs the child command
  with the four fixed paths; it makes no other call and returns normally, never
  with a usage error.
\<close>

theorem main_parent_path:
  assumes "length args \<le> 1 \<or> args ! 1 \<noteq> ''child''"
  shows "main w args s = main w [] s
       \<and> fst (main w args s) = Returned
       \<and> filter is_call (new_events s (snd (main w args s))) =
           (case sys w (trace s) (MkdirAll ''/tmp/proxy_pool/volume'') of
              Some err \<Rightarrow> [Call (MkdirAll ''/tmp/proxy_pool/volume'') (Some err)]
            | None \<Rightarrow>
                [Call (MkdirAll ''/tmp/proxy_pool/volume'') None,
                 Call (Run (child_command ''/tmp/proxy_pool/config.json''
                              ''/tmp/proxy_pool/manifest.json''
                              ''/tmp/proxy_pool/overlay'' ''/tmp/proxy_pool/volume''))
                   (sys w (trace s @ [Call (MkdirAll ''/tmp/proxy_pool/volume'') None])
                      (Run (child_command ''/tmp/proxy_pool/config.json''
                              ''/tmp/proxy_pool/manifest.json''
                              ''/tmp/proxy_pool/overlay'' ''/tmp/proxy_pool/volume'')))])"
proof -
  have not_child: "\<not> (length args > 1 \<and> args ! 1 = ''child'')" using assms by auto
  have eq: "main w args s = main w [] s"
    unfolding main_def if_not_P [OF not_child] by simp
  have "fst (main w [] s) = Returned \<and>
     filter is_call (new_events s (snd (main w [] s))) =
           (case sys w (trace s) (MkdirAll ''/tmp/proxy_pool/volume'') of
              Some err \<Rightarrow> [Call (MkdirAll ''/tmp/proxy_pool/volume'') (Some err)]
            | None \<Rightarrow>
                [Call (MkdirAll ''/tmp/proxy_pool/volume'') None,
                 Call (Run (child_command ''/tmp/proxy_pool/config.json''
                              ''/tmp/proxy_pool/manifest.json''
                              ''/tmp/proxy_pool/overlay'' ''/tmp/proxy_pool/volume''))
                   (sys w (trace s @ [Call (MkdirAll ''/tmp/proxy_pool/volume'') None])
                      (Run (child_command ''/tmp/proxy_pool/config.json''
                              ''/tmp/proxy_pool/manifest.json''
                              ''/tmp/proxy_pool/overlay'' ''/tmp/proxy_pool/volume'')))])"
    by (simp add: main_def runInNamespace_def call_eq fmt_Printf_err_def new_events_def
        log_def Let_def split: option.splits)
  with eq show ?thesis by simp
qed

theorem main_parent_path_witness:
  "main w_quiet [''prog'', ''run'', ''child'', ''x'', ''y''] s_init = main w_quiet [] s_init
   \<and> fst (main w_quiet [''prog'', ''run'', ''child'', ''x'', ''y''] s_init) = Returned
   \<and> filter is_call (new_events s_init (snd (main w_quiet [''prog'', ''run'', ''child'', ''x'', ''y''] s_init))) =
       [Call (MkdirAll ''/tmp/proxy_pool/volume'') None,
        Call (Run (child_command ''/tmp/proxy_pool/config.json'' ''/tmp/proxy_pool/manifest.json''
                     ''/tmp/proxy_pool/overlay'' ''/tmp/proxy_pool/volume'')) None]"
proof -
  have q: "sys w_quiet t c = None" for t c by (simp add: w_quiet_def)
  have h: "length [''prog'', ''run'', ''child'', ''x'', ''y''] \<le> 1
      \<or> [''prog'', ''run'', ''child'', ''x'', ''y''] ! 1 \<noteq> ''child''" by simp
  show ?thesis
    by (rule main_parent_path [OF h, of w_quiet s_init, unfolded q option.simps])
qed

end
